theory Spec2Isabelle
  imports Main
begin

section \<open>Protocol Server: wire values and the tool catalogue\<close>

text \<open>
  \<^verbatim>\<open>src/mcp/server.ts\<close>. A request id is \<^verbatim>\<open>string | number | null\<close>; a response
  carries either a result or an error object. A response is one line written to
  standard output; the model keeps the response value itself. Log output (the
  diagnostics stream) is not part of the model.
\<close>

datatype rpc_id = IdNull | IdNum int | IdStr string

text \<open>One entry of a tool's \<^verbatim>\<open>inputSchema.properties\<close>: name, JSON type, description.\<close>

record schema_property =
  prop_name :: string
  prop_type :: string
  prop_description :: string

record tool =
  tool_name :: string
  tool_description :: string
  tool_properties :: "schema_property list"
  tool_required :: "string list"

datatype payload =
    ToolsPayload "tool list"
  | ContentText string

datatype response =
    Result rpc_id payload
  | Failure rpc_id int string "string option"

definition INTERNAL_ERROR :: int where
  "INTERNAL_ERROR = - 32603"

definition sendResult :: "rpc_id \<Rightarrow> payload \<Rightarrow> response" where
  "sendResult i r = Result i r"

definition sendError :: "rpc_id \<Rightarrow> int \<Rightarrow> string \<Rightarrow> string option \<Rightarrow> response" where
  "sendError i code msg dat = Failure i code msg dat"

text \<open>The literal array \<^verbatim>\<open>tools\<close> of \<^verbatim>\<open>MCPServer.handleToolsList\<close>, in source order.\<close>

definition tools :: "tool list" where
  "tools =
    [ \<lparr> tool_name = ''browser_launch'',
        tool_description = ''Start a browser session (visible by default)'',
        tool_properties =
          [\<lparr> prop_name = ''headless'', prop_type = ''boolean'',
             prop_description = ''Run browser headless'' \<rparr>],
        tool_required = [] \<rparr>,
      \<lparr> tool_name = ''browser_navigate'',
        tool_description = ''Go to a URL'',
        tool_properties =
          [\<lparr> prop_name = ''url'', prop_type = ''string'',
             prop_description = ''URL to navigate to'' \<rparr>],
        tool_required = [''url''] \<rparr>,
      \<lparr> tool_name = ''browser_screenshot'',
        tool_description = ''Capture viewport (optionally save to file)'',
        tool_properties =
          [\<lparr> prop_name = ''filename'', prop_type = ''string'',
             prop_description = ''Optional filename (relative to SCREENSHOT_DIR)'' \<rparr>,
           \<lparr> prop_name = ''returnBase64'', prop_type = ''boolean'',
             prop_description = ''Return base64 instead of saving only'' \<rparr>,
           \<lparr> prop_name = ''fullPage'', prop_type = ''boolean'',
             prop_description = ''Capture full page'' \<rparr>],
        tool_required = [] \<rparr>,
      \<lparr> tool_name = ''browser_quit'',
        tool_description = ''Close the browser session'',
        tool_properties = [],
        tool_required = [] \<rparr> ]"

definition handleToolsList :: "rpc_id \<Rightarrow> response" where
  "handleToolsList i = sendResult i (ToolsPayload tools)"

text \<open>
  The tool names a response lists (empty for a response that carries no catalogue),
  and the seven names of the documented catalogue, which the smoke test
  \<^verbatim>\<open>tests/mcp.smoke.test.ts\<close> requires of every \<^verbatim>\<open>tools/list\<close> response.
\<close>

fun listed_names :: "response \<Rightarrow> string list" where
  "listed_names (Result _ (ToolsPayload ts)) = map tool_name ts"
| "listed_names _ = []"

definition documented_tool_names :: "string list" where
  "documented_tool_names =
    [''browser_launch'', ''browser_navigate'', ''browser_find'', ''browser_click'',
     ''browser_type'', ''browser_screenshot'', ''browser_quit'']"

section \<open>Session Manager: state, collaborators and errors\<close>

text \<open>
  \<^verbatim>\<open>BrowserManager\<close> (\<^verbatim>\<open>src/core/browserManager.ts\<close>). The manager holds three handles
  and a re-entrancy flag. Playwright, the file system and the clock are collaborators:
  every call to one is appended to \<open>trace\<close>, and what the call answers is given by
  the environment, as a function of the calls made so far and of the call itself, so
  that any call may succeed or fail, and differently each time. Logger output is not
  modelled; \<^verbatim>\<open>console.error\<close> in \<^verbatim>\<open>shutdown\<close> is.
\<close>

type_synonym handle = nat
type_synonym bytes = "nat list"
type_synonym box = "int \<times> int \<times> int \<times> int"

record config =
  cfg_headless :: bool
  cfg_slowMoMs :: nat
  cfg_defaultTimeoutMs :: nat
  cfg_screenshotDir :: string

datatype error =
    AlreadyLaunched
  | NotLaunched string
  | External string
  | ClickFailed string nat error
  | TypeFailed string nat error

datatype wait_state = Attached | Visible

datatype call =
    EnsureDir string
  | ChromiumLaunch bool nat
  | NewContext handle
  | NewPage handle
  | SetDefaultTimeout handle nat
  | Goto handle string
  | PageTitle handle
  | PageUrl handle
  | WaitFor handle string wait_state nat
  | Click handle string nat
  | Clear handle string nat
  | Fill handle string string nat
  | TagName handle string
  | InnerText handle string
  | BoundingBox handle string
  | PageScreenshot handle "string option" bool
  | PageClose handle
  | ContextClose handle
  | BrowserClose handle
  | ConsoleError error

record manager =
  browser :: "handle option"
  bcontext :: "handle option"
  page :: "handle option"
  isShuttingDown :: bool
  trace :: "call list"

text \<open>
  The environment: the configuration, the clock (\<^verbatim>\<open>new Date().toISOString()\<close>), the
  answers of the collaborators grouped by result type (a rejected promise or a thrown
  error is \<open>Inl\<close> of its message), and the functions of Node's \<^verbatim>\<open>path\<close> module and
  of \<^verbatim>\<open>Buffer\<close> that the manager uses.
\<close>

record env =
  config :: config
  now_iso :: "call list \<Rightarrow> string"
  void_reply :: "call list \<Rightarrow> call \<Rightarrow> string + unit"
  handle_reply :: "call list \<Rightarrow> call \<Rightarrow> string + handle"
  string_reply :: "call list \<Rightarrow> call \<Rightarrow> string + string"
  url_reply :: "call list \<Rightarrow> handle \<Rightarrow> string"
  box_reply :: "call list \<Rightarrow> call \<Rightarrow> string + box option"
  bytes_reply :: "call list \<Rightarrow> call \<Rightarrow> string + bytes"
  path_join :: "string \<Rightarrow> string \<Rightarrow> string"
  path_dirname :: "string \<Rightarrow> string"
  path_isAbsolute :: "string \<Rightarrow> bool"
  path_resolve_cwd :: "string \<Rightarrow> string"
  base64 :: "bytes \<Rightarrow> string"

record launch_options =
  lo_headless :: "bool option"
  lo_slowMoMs :: "nat option"

record timeout_options =
  to_timeoutMs :: "nat option"

record type_options =
  ty_timeoutMs :: "nat option"
  ty_clear :: "bool option"

record screenshot_options =
  so_path :: "string option"
  so_fullPage :: "bool option"
  so_returnBase64 :: "bool option"

record element_info =
  ei_selector :: string
  ei_found :: bool
  ei_tag :: "string option"
  ei_text :: "string option"
  ei_boundingBox :: "box option"

datatype shot = Buffer bytes | Base64 string

text \<open>The manager as constructed: no handles, not shutting down, nothing called yet.\<close>

definition initial :: manager where
  "initial = \<lparr> browser = None, bcontext = None, page = None,
               isShuttingDown = False, trace = [] \<rparr>"

subsection \<open>Error messages\<close>

definition dquote :: char where
  "dquote = CHR 0x22"

definition digit_char :: "nat \<Rightarrow> char" where
  "digit_char d = char_of (48 + d)"

fun decimal :: "nat \<Rightarrow> string" where
  "decimal n = (if n < 10 then [digit_char n] else decimal (n div 10) @ [digit_char (n mod 10)])"

fun message :: "error \<Rightarrow> string" where
  "message AlreadyLaunched = ''Browser is already launched. Call quit() before launching again.''"
| "message (NotLaunched operation) =
     ''Cannot '' @ operation @ '': Browser is not launched. Call launch() first.''"
| "message (External m) = m"
| "message (ClickFailed selector timeout cause) =
     ''Click failed for selector '' @ [dquote] @ selector @ [dquote] @ '' (timeout '' @
     decimal timeout @ ''ms): '' @ message cause"
| "message (TypeFailed selector timeout cause) =
     ''Type failed for selector '' @ [dquote] @ selector @ [dquote] @ '' (timeout '' @
     decimal timeout @ ''ms): '' @ message cause"

subsection \<open>Control flow: await, throw, try/catch/finally\<close>

text \<open>
  An operation takes the manager and gives back either the error it throws or its
  result, together with the manager as it has left it.
\<close>

type_synonym 'a action = "manager \<Rightarrow> (error + 'a) \<times> manager"

definition succeed :: "'a \<Rightarrow> 'a action" where
  "succeed x s = (Inr x, s)"

definition throw :: "error \<Rightarrow> 'a action" where
  "throw e s = (Inl e, s)"

definition andThen :: "'a action \<Rightarrow> ('a \<Rightarrow> 'b action) \<Rightarrow> 'b action" where
  "andThen m f s = (case m s of (Inl e, s1) \<Rightarrow> (Inl e, s1) | (Inr x, s1) \<Rightarrow> f x s1)"

definition tryCatch :: "'a action \<Rightarrow> (error \<Rightarrow> 'a action) \<Rightarrow> 'a action" where
  "tryCatch m h s = (case m s of (Inl e, s1) \<Rightarrow> h e s1 | (Inr x, s1) \<Rightarrow> (Inr x, s1))"

definition tryFinally :: "'a action \<Rightarrow> (manager \<Rightarrow> manager) \<Rightarrow> 'a action" where
  "tryFinally m f s = (case m s of (r, s1) \<Rightarrow> (r, f s1))"

definition modify :: "(manager \<Rightarrow> manager) \<Rightarrow> unit action" where
  "modify f s = (Inr (), f s)"

subsection \<open>Calls to the collaborators\<close>

definition emit :: "call \<Rightarrow> manager \<Rightarrow> manager" where
  "emit c s = s\<lparr>trace := trace s @ [c]\<rparr>"

definition answer :: "(call list \<Rightarrow> call \<Rightarrow> string + 'a) \<Rightarrow> call \<Rightarrow> 'a action" where
  "answer reply c s =
     (case reply (trace s) c of
        Inl m \<Rightarrow> (Inl (External m), emit c s)
      | Inr x \<Rightarrow> (Inr x, emit c s))"

definition callVoid :: "env \<Rightarrow> call \<Rightarrow> unit action" where
  "callVoid E = answer (void_reply E)"

definition callHandle :: "env \<Rightarrow> call \<Rightarrow> handle action" where
  "callHandle E = answer (handle_reply E)"

definition callString :: "env \<Rightarrow> call \<Rightarrow> string action" where
  "callString E = answer (string_reply E)"

definition callBox :: "env \<Rightarrow> call \<Rightarrow> (box option) action" where
  "callBox E = answer (box_reply E)"

definition callBytes :: "env \<Rightarrow> call \<Rightarrow> bytes action" where
  "callBytes E = answer (bytes_reply E)"

text \<open>
  \<^verbatim>\<open>this.page!\<close>: the non-null assertion checks nothing at run time, so a call on a null
  page throws a \<^verbatim>\<open>TypeError\<close>.
\<close>

definition withPage :: "(handle \<Rightarrow> 'a action) \<Rightarrow> 'a action" where
  "withPage f s =
     (case page s of
        None \<Rightarrow> throw (External ''TypeError: Cannot read properties of null'') s
      | Some p \<Rightarrow> f p s)"

text \<open>\<^verbatim>\<open>resolveAbsolute\<close> of \<^verbatim>\<open>src/utils/fs.ts\<close>.\<close>

definition resolveAbsolute :: "env \<Rightarrow> string \<Rightarrow> string" where
  "resolveAbsolute E filePath =
     (if path_isAbsolute E filePath then filePath else path_resolve_cwd E filePath)"

text \<open>\<^verbatim>\<open>a?.f ?? d\<close>: the field of an optional options object, or the default.\<close>

definition field_or :: "'r option \<Rightarrow> ('r \<Rightarrow> 'a option) \<Rightarrow> 'a \<Rightarrow> 'a" where
  "field_or options f d =
     (case options of
        None \<Rightarrow> d
      | Some r \<Rightarrow> (case f r of None \<Rightarrow> d | Some v \<Rightarrow> v))"

section \<open>Session Manager: the error-screenshot name\<close>

text \<open>
  \<^verbatim>\<open>buildErrorScreenshotName\<close>. The timestamp is the ISO string with every \<^verbatim>\<open>-\<close> and
  \<^verbatim>\<open>:\<close> removed (\<^verbatim>\<open>/[-:]/g\<close>) and then the first \<^verbatim>\<open>.\<close> followed by three digits removed
  (\<^verbatim>\<open>/\.\d{3}/\<close>). The step name has every maximal run of characters outside
  \<^verbatim>\<open>[a-zA-Z0-9]\<close> replaced by one underscore, and then the underscores at its start and
  at its end removed (\<^verbatim>\<open>/^_+|_+$/g\<close>).
\<close>

definition isDigit :: "char \<Rightarrow> bool" where
  "isDigit c = (c \<in> set ''0123456789'')"

definition isAlnum :: "char \<Rightarrow> bool" where
  "isAlnum c =
     (c \<in> set ''abcdefghijklmnopqrstuvwxyz'' \<or> c \<in> set ''ABCDEFGHIJKLMNOPQRSTUVWXYZ'' \<or>
      isDigit c)"

definition removeDashesColons :: "string \<Rightarrow> string" where
  "removeDashesColons isoString =
     filter (\<lambda>c. c \<noteq> CHR ''-'' \<and> c \<noteq> CHR '':'') isoString"

fun removeMillis :: "string \<Rightarrow> string" where
  "removeMillis [] = []"
| "removeMillis (c # cs) =
     (if c = CHR ''.'' \<and> 3 \<le> length cs \<and> list_all isDigit (take 3 cs)
      then drop 3 cs
      else c # removeMillis cs)"

function replaceNonAlnumRuns :: "string \<Rightarrow> string" where
  "replaceNonAlnumRuns [] = []"
| "replaceNonAlnumRuns (c # cs) =
     (if isAlnum c then c # replaceNonAlnumRuns cs
      else CHR ''_'' # replaceNonAlnumRuns (dropWhile (\<lambda>x. \<not> isAlnum x) cs))"
  by pat_completeness auto
termination
  by (relation "measure length") (auto simp: length_dropWhile_le less_Suc_eq_le)

definition trimUnderscores :: "string \<Rightarrow> string" where
  "trimUnderscores s =
     rev (dropWhile (\<lambda>c. c = CHR ''_'') (rev (dropWhile (\<lambda>c. c = CHR ''_'') s)))"

definition buildErrorScreenshotName :: "string \<Rightarrow> string \<Rightarrow> string" where
  "buildErrorScreenshotName isoString stepName =
     (let timestamp = removeMillis (removeDashesColons isoString);
          safeName = trimUnderscores (replaceNonAlnumRuns stepName)
      in ''error-'' @ timestamp @ ''-'' @ safeName @ ''.png'')"

text \<open>
  The name as the specification words it: the step name with its non-alphanumeric runs
  replaced by underscores, and nothing else done to it.
\<close>

definition specErrorScreenshotName :: "string \<Rightarrow> string \<Rightarrow> string" where
  "specErrorScreenshotName isoString stepName =
     ''error-'' @ removeMillis (removeDashesColons isoString) @ ''-'' @
     replaceNonAlnumRuns stepName @ ''.png''"

section \<open>Session Manager: operations\<close>

definition ensureLaunched :: "string \<Rightarrow> unit action" where
  "ensureLaunched operation s =
     (if browser s = None \<or> page s = None then throw (NotLaunched operation) s
      else succeed () s)"

definition screenshot :: "env \<Rightarrow> screenshot_options option \<Rightarrow> shot action" where
  "screenshot E options =
     andThen (ensureLaunched ''screenshot'')
     (\<lambda>_. let fullPage = field_or options so_fullPage False;
              returnBase64 = field_or options so_returnBase64 False
          in andThen
               (case Option.bind options so_path of
                  None \<Rightarrow> succeed None
                | Some p \<Rightarrow>
                    if p = [] then succeed None
                    else (let screenshotPath = resolveAbsolute E p
                          in andThen (callVoid E (EnsureDir (path_dirname E screenshotPath)))
                             (\<lambda>_. succeed (Some screenshotPath))))
             (\<lambda>screenshotPath.
                andThen (withPage (\<lambda>p. callBytes E (PageScreenshot p screenshotPath fullPage)))
                (\<lambda>buffer.
                   if returnBase64 then succeed (Base64 (base64 E buffer))
                   else succeed (Buffer buffer))))"

definition captureErrorScreenshot :: "env \<Rightarrow> string \<Rightarrow> unit action" where
  "captureErrorScreenshot E stepName =
     tryCatch
       (\<lambda>s. if page s = None then succeed () s
            else (let filename = buildErrorScreenshotName (now_iso E (trace s)) stepName;
                      screenshotPath = path_join E (cfg_screenshotDir (config E)) filename
                  in andThen
                       (screenshot E
                          (Some \<lparr> so_path = Some screenshotPath, so_fullPage = Some True,
                                  so_returnBase64 = None \<rparr>))
                       (\<lambda>_. succeed ())) s)
       (\<lambda>screenshotError. succeed ())"

definition runStep :: "env \<Rightarrow> string \<Rightarrow> 'a action \<Rightarrow> 'a action" where
  "runStep E stepName fn =
     tryCatch fn
       (\<lambda>err. andThen (captureErrorScreenshot E stepName) (\<lambda>_. throw err))"

text \<open>The function that \<^verbatim>\<open>launch\<close> hands to \<^verbatim>\<open>runStep\<close>.\<close>

definition launch_body :: "env \<Rightarrow> launch_options option \<Rightarrow> unit action" where
  "launch_body E options s =
     (if browser s \<noteq> None then throw AlreadyLaunched s
      else (let headless = field_or options lo_headless (cfg_headless (config E));
                slowMo = field_or options lo_slowMoMs (cfg_slowMoMs (config E))
            in andThen
                 (callVoid E (EnsureDir (resolveAbsolute E (cfg_screenshotDir (config E)))))
               (\<lambda>_. andThen (callHandle E (ChromiumLaunch headless slowMo))
               (\<lambda>b. andThen (modify (\<lambda>s. s\<lparr>browser := Some b\<rparr>))
               (\<lambda>_. andThen (callHandle E (NewContext b))
               (\<lambda>c. andThen (modify (\<lambda>s. s\<lparr>bcontext := Some c\<rparr>))
               (\<lambda>_. andThen (callHandle E (NewPage c))
               (\<lambda>p. andThen (modify (\<lambda>s. s\<lparr>page := Some p\<rparr>))
               (\<lambda>_. modify
                      (emit (SetDefaultTimeout p (cfg_defaultTimeoutMs (config E)))))))))))) s)"

definition launch :: "env \<Rightarrow> launch_options option \<Rightarrow> unit action" where
  "launch E options = runStep E ''launch'' (launch_body E options)"

definition navigate :: "env \<Rightarrow> string \<Rightarrow> unit action" where
  "navigate E url =
     andThen (ensureLaunched ''navigate'')
     (\<lambda>_. runStep E (''navigate to '' @ url) (withPage (\<lambda>p. callVoid E (Goto p url))))"

definition getTitle :: "env \<Rightarrow> string action" where
  "getTitle E =
     andThen (ensureLaunched ''getTitle'') (\<lambda>_. withPage (\<lambda>p. callString E (PageTitle p)))"

definition getUrl :: "env \<Rightarrow> string action" where
  "getUrl E =
     andThen (ensureLaunched ''getUrl'')
     (\<lambda>_. withPage (\<lambda>p s. (Inr (url_reply E (trace s) p), emit (PageUrl p) s)))"

definition waitForSelector :: "env \<Rightarrow> string \<Rightarrow> timeout_options option \<Rightarrow> unit action" where
  "waitForSelector E selector options =
     andThen (ensureLaunched ''waitForSelector'')
     (\<lambda>_. let timeout = field_or options to_timeoutMs (cfg_defaultTimeoutMs (config E))
          in runStep E (''wait for selector '' @ [dquote] @ selector @ [dquote])
               (withPage (\<lambda>p. callVoid E (WaitFor p selector Visible timeout))))"

text \<open>A Playwright \<^verbatim>\<open>Locator\<close> is lazy: the page it belongs to and its selector.\<close>

definition findLocator :: "string \<Rightarrow> (handle \<times> string) action" where
  "findLocator selector =
     andThen (ensureLaunched ''find'') (\<lambda>_. withPage (\<lambda>p. succeed (p, selector)))"

definition click :: "env \<Rightarrow> string \<Rightarrow> timeout_options option \<Rightarrow> unit action" where
  "click E selector options =
     andThen (ensureLaunched ''click'')
     (\<lambda>_. let timeout = field_or options to_timeoutMs (cfg_defaultTimeoutMs (config E))
          in runStep E (''click '' @ [dquote] @ selector @ [dquote])
               (tryCatch (withPage (\<lambda>p. callVoid E (Click p selector timeout)))
                  (\<lambda>err. throw (ClickFailed selector timeout err))))"

definition type_text :: "env \<Rightarrow> string \<Rightarrow> string \<Rightarrow> type_options option \<Rightarrow> unit action" where
  "type_text E selector text options =
     andThen (ensureLaunched ''type'')
     (\<lambda>_. let timeout = field_or options ty_timeoutMs (cfg_defaultTimeoutMs (config E));
              clear = field_or options ty_clear True
          in runStep E (''type into '' @ [dquote] @ selector @ [dquote])
               (tryCatch
                  (withPage
                     (\<lambda>p. andThen
                            (if clear then callVoid E (Clear p selector timeout) else succeed ())
                          (\<lambda>_. callVoid E (Fill p selector text timeout))))
                  (\<lambda>err. throw (TypeFailed selector timeout err))))"

definition truncateText :: "string \<Rightarrow> string" where
  "truncateText text = (if text \<noteq> [] \<and> 200 < length text then take 200 text @ ''...'' else text)"

definition getElementInfo :: "env \<Rightarrow> string \<Rightarrow> timeout_options option \<Rightarrow> element_info action" where
  "getElementInfo E selector options =
     andThen (ensureLaunched ''getElementInfo'')
     (\<lambda>_. let timeout = field_or options to_timeoutMs (cfg_defaultTimeoutMs (config E))
          in runStep E (''get element info for '' @ [dquote] @ selector @ [dquote])
               (tryCatch
                  (withPage
                     (\<lambda>p. andThen (callVoid E (WaitFor p selector Attached timeout))
                     (\<lambda>_. andThen (callString E (TagName p selector))
                     (\<lambda>tag. andThen (callString E (InnerText p selector))
                     (\<lambda>text. andThen (callBox E (BoundingBox p selector))
                     (\<lambda>boundingBox.
                        succeed \<lparr> ei_selector = selector, ei_found = True, ei_tag = Some tag,
                                  ei_text = Some (truncateText text),
                                  ei_boundingBox = boundingBox \<rparr>))))))
                  (\<lambda>err. succeed \<lparr> ei_selector = selector, ei_found = False, ei_tag = None,
                                   ei_text = None, ei_boundingBox = None \<rparr>)))"

definition closePage :: "env \<Rightarrow> unit action" where
  "closePage E s =
     (case page s of
        None \<Rightarrow> succeed () s
      | Some p \<Rightarrow> andThen (callVoid E (PageClose p)) (\<lambda>_. modify (\<lambda>s. s\<lparr>page := None\<rparr>)) s)"

definition closeContext :: "env \<Rightarrow> unit action" where
  "closeContext E s =
     (case bcontext s of
        None \<Rightarrow> succeed () s
      | Some c \<Rightarrow> andThen (callVoid E (ContextClose c)) (\<lambda>_. modify (\<lambda>s. s\<lparr>bcontext := None\<rparr>)) s)"

definition closeBrowser :: "env \<Rightarrow> unit action" where
  "closeBrowser E s =
     (case browser s of
        None \<Rightarrow> succeed () s
      | Some b \<Rightarrow> andThen (callVoid E (BrowserClose b)) (\<lambda>_. modify (\<lambda>s. s\<lparr>browser := None\<rparr>)) s)"

text \<open>The function that \<^verbatim>\<open>quit\<close> hands to \<^verbatim>\<open>runStep\<close>.\<close>

definition quit_body :: "env \<Rightarrow> unit action" where
  "quit_body E =
     tryCatch
       (andThen (closePage E) (\<lambda>_. andThen (closeContext E) (\<lambda>_. closeBrowser E)))
       (\<lambda>err. andThen
                (modify (\<lambda>s. s\<lparr>page := None, bcontext := None, browser := None\<rparr>))
                (\<lambda>_. throw err))"

definition quit :: "env \<Rightarrow> unit action" where
  "quit E = andThen (ensureLaunched ''quit'') (\<lambda>_. runStep E ''quit'' (quit_body E))"

definition shutdown :: "env \<Rightarrow> unit action" where
  "shutdown E s =
     (if isShuttingDown s then succeed () s
      else tryFinally
             (tryCatch
                (\<lambda>s. if browser s = None then succeed () s else quit E s)
                (\<lambda>err. modify (emit (ConsoleError err))))
             (\<lambda>s. s\<lparr>isShuttingDown := False\<rparr>)
             (s\<lparr>isShuttingDown := True\<rparr>))"

definition isLaunched :: "manager \<Rightarrow> bool" where
  "isLaunched s = (browser s \<noteq> None \<and> page s \<noteq> None)"

section \<open>Protocol Server: the quit tool\<close>

text \<open>
  \<^verbatim>\<open>MCPServer.toolBrowserQuit\<close> awaits \<^verbatim>\<open>browserManager.shutdown()\<close> inside a
  \<^verbatim>\<open>try\<close>; its arguments are not read.
\<close>

definition toolBrowserQuit :: "env \<Rightarrow> rpc_id \<Rightarrow> manager \<Rightarrow> response \<times> manager" where
  "toolBrowserQuit E i s =
     (case shutdown E s of
        (Inr _, s1) \<Rightarrow> (sendResult i (ContentText ''Browser session closed''), s1)
      | (Inl err, s1) \<Rightarrow>
          (sendError i INTERNAL_ERROR (''Failed to close browser: '' @ message err) None, s1))"

section \<open>Frame condition\<close>

text \<open>\<open>only_trace s s'\<close>: \<open>s'\<close> is \<open>s\<close> with a different trace, handles and flag as in \<open>s\<close>.\<close>

definition only_trace :: "manager \<Rightarrow> manager \<Rightarrow> bool" where
  "only_trace s s' = (s' = s\<lparr>trace := trace s'\<rparr>)"

section \<open>Shutdown Coordinator\<close>

text \<open>
  \<^verbatim>\<open>registerProcessHooks\<close> (\<^verbatim>\<open>src/core/processHooks.ts\<close>). The module keeps
  \<^verbatim>\<open>isShuttingDown\<close> and the force-exit timer; the process has its \<^verbatim>\<open>exitCode\<close> field
  and, once \<^verbatim>\<open>process.exit\<close> has been called, the code it exited with. The timer and
  the suspended \<^verbatim>\<open>performShutdown\<close> both hold the exit code they were started with.
  \<^verbatim>\<open>performShutdown\<close> is asynchronous: it runs up to \<^verbatim>\<open>await shutdownFn()\<close> when the
  trigger arrives (\<open>performShutdown\<close>) and resumes when the cleanup has resolved or
  rejected (\<open>cleanupSettled\<close>); other events can arrive in between. Time is not
  modelled: the timer firing is an event.
\<close>

datatype trigger = SIGINT | SIGTERM | UncaughtException | UnhandledRejection

record hooks =
  hooksShuttingDown :: bool
  shutdownTimeout :: "nat option"
  awaitingCleanup :: "nat option"
  processExitCode :: "nat option"
  exited :: "nat option"

definition ExitCode_SUCCESS :: nat where
  "ExitCode_SUCCESS = 0"

definition ExitCode_ERROR :: nat where
  "ExitCode_ERROR = 1"

definition ExitCode_SIGINT :: nat where
  "ExitCode_SIGINT = 130"

definition running :: hooks where
  "running = \<lparr> hooksShuttingDown = False, shutdownTimeout = None, awaitingCleanup = None,
               processExitCode = None, exited = None \<rparr>"

text \<open>\<^verbatim>\<open>performShutdown(signal, exitCode)\<close> up to its \<^verbatim>\<open>await\<close>.\<close>

definition performShutdown :: "nat \<Rightarrow> hooks \<Rightarrow> hooks" where
  "performShutdown exitCode h =
     (if hooksShuttingDown h then h
      else h\<lparr> hooksShuttingDown := True, shutdownTimeout := Some exitCode,
              awaitingCleanup := Some exitCode \<rparr>)"

text \<open>The four handlers that \<^verbatim>\<open>registerProcessHooks\<close> installs.\<close>

fun handler :: "trigger \<Rightarrow> hooks \<Rightarrow> hooks" where
  "handler SIGINT h = performShutdown ExitCode_SIGINT h"
| "handler SIGTERM h = performShutdown ExitCode_SUCCESS h"
| "handler UncaughtException h =
     performShutdown ExitCode_ERROR (h\<lparr> processExitCode := Some ExitCode_ERROR \<rparr>)"
| "handler UnhandledRejection h =
     performShutdown ExitCode_ERROR (h\<lparr> processExitCode := Some ExitCode_ERROR \<rparr>)"

text \<open>
  The rest of \<^verbatim>\<open>performShutdown\<close>, after the \<^verbatim>\<open>await\<close>: the \<^verbatim>\<open>try\<close> branch when the
  cleanup resolved, the \<^verbatim>\<open>catch\<close> branch when it rejected. Both clear the timer and exit.
\<close>

datatype outcome = Resolved | Rejected string

definition cleanupSettled :: "outcome \<Rightarrow> hooks \<Rightarrow> hooks" where
  "cleanupSettled result h =
     (case awaitingCleanup h of
        None \<Rightarrow> h
      | Some exitCode \<Rightarrow>
          (case result of
             Resolved \<Rightarrow>
               h\<lparr> shutdownTimeout := None, awaitingCleanup := None, exited := Some exitCode \<rparr>
           | Rejected m \<Rightarrow>
               h\<lparr> shutdownTimeout := None, awaitingCleanup := None,
                  exited := Some ExitCode_ERROR \<rparr>))"

text \<open>The timer's callback: \<^verbatim>\<open>process.exit(exitCode)\<close>.\<close>

definition timerFired :: "hooks \<Rightarrow> hooks" where
  "timerFired h =
     (case shutdownTimeout h of
        None \<Rightarrow> h
      | Some exitCode \<Rightarrow> h\<lparr> awaitingCleanup := None, exited := Some exitCode \<rparr>)"

datatype event = Trigger trigger | CleanupSettled outcome | TimerFired

text \<open>One event; after \<^verbatim>\<open>process.exit\<close> nothing runs any more.\<close>

definition react :: "hooks \<Rightarrow> event \<Rightarrow> hooks" where
  "react h e =
     (if exited h \<noteq> None then h
      else (case e of
              Trigger t \<Rightarrow> handler t h
            | CleanupSettled result \<Rightarrow> cleanupSettled result h
            | TimerFired \<Rightarrow> timerFired h))"

definition run :: "hooks \<Rightarrow> event list \<Rightarrow> hooks" where
  "run h es = foldl react h es"

text \<open>The exit code table of the specification.\<close>

fun exitCodeFor :: "trigger \<Rightarrow> nat" where
  "exitCodeFor SIGINT = 130"
| "exitCodeFor SIGTERM = 0"
| "exitCodeFor UncaughtException = 1"
| "exitCodeFor UnhandledRejection = 1"

section \<open>Filesystem helper: glob patterns\<close>

text \<open>
  \<^verbatim>\<open>matchesPattern\<close> (\<^verbatim>\<open>src/utils/fs.ts\<close>) turns the pattern into the source of a regular
  expression and tests the file name against it: first every character of
  \<^verbatim>\<open>. + ? ^ $ { } ( ) | [ ]\<close> and the backslash gets a backslash in front, then every \<^verbatim>\<open>*\<close> becomes
  \<^verbatim>\<open>.*\<close>, and the result is put between \<^verbatim>\<open>^\<close> and \<^verbatim>\<open>$\<close>. Strings are lists of
  8-bit characters here.
\<close>

definition backslash :: char where
  "backslash = CHR 0x5C"

definition regexSpecials :: "char list" where
  "regexSpecials = ''.+?^${}()|[]'' @ [backslash]"

definition escapeRegExp :: "string \<Rightarrow> string" where
  "escapeRegExp pattern =
     concat (map (\<lambda>c. if c \<in> set regexSpecials then [backslash, c] else [c]) pattern)"

definition starToDotStar :: "string \<Rightarrow> string" where
  "starToDotStar s = concat (map (\<lambda>c. if c = CHR ''*'' then ''.*'' else [c]) s)"

text \<open>
  The regular expressions these two steps can produce are sequences of literal
  characters (escaped or not) and of \<^verbatim>\<open>.*\<close>. \<open>parseRegExp\<close> reads such a source; any
  other source is outside the fragment modelled (\<open>None\<close>). In JavaScript, without the
  \<^verbatim>\<open>s\<close> flag, \<^verbatim>\<open>.\<close> matches any character except a line terminator (of the 8-bit
  characters: line feed and carriage return). Between \<^verbatim>\<open>^\<close> and \<^verbatim>\<open>$\<close>, without the
  \<^verbatim>\<open>m\<close> flag, the expression has to match the whole input.
\<close>

datatype atom = Literal char | AnyRun

fun parseRegExp :: "string \<Rightarrow> atom list option" where
  "parseRegExp [] = Some []"
| "parseRegExp (c # cs) =
     (if c = backslash then
        (case cs of
           [] \<Rightarrow> None
         | d # ds \<Rightarrow>
             if d \<in> set regexSpecials then map_option (Cons (Literal d)) (parseRegExp ds)
             else None)
      else if c = CHR ''.'' then
        (case cs of
           [] \<Rightarrow> None
         | d # ds \<Rightarrow>
             if d = CHR ''*'' then map_option (Cons AnyRun) (parseRegExp ds) else None)
      else if c = CHR ''*'' \<or> c \<in> set regexSpecials then None
      else map_option (Cons (Literal c)) (parseRegExp cs))"

definition isLineTerminator :: "char \<Rightarrow> bool" where
  "isLineTerminator c = (c = CHR 0x0A \<or> c = CHR 0x0D)"

fun matchAtoms :: "atom list \<Rightarrow> string \<Rightarrow> bool" where
  "matchAtoms [] input = (input = [])"
| "matchAtoms (Literal c # rest) [] = False"
| "matchAtoms (Literal c # rest) (x # xs) = (x = c \<and> matchAtoms rest xs)"
| "matchAtoms (AnyRun # rest) [] = matchAtoms rest []"
| "matchAtoms (AnyRun # rest) (x # xs) =
     (matchAtoms rest (x # xs) \<or> (\<not> isLineTerminator x \<and> matchAtoms (AnyRun # rest) xs))"

text \<open>\<^verbatim>\<open>new RegExp(`^${source}$`).test(input)\<close>.\<close>

definition regExpTest :: "string \<Rightarrow> string \<Rightarrow> bool option" where
  "regExpTest source input = map_option (\<lambda>atoms. matchAtoms atoms input) (parseRegExp source)"

definition matchesPattern :: "string \<Rightarrow> string \<Rightarrow> bool option" where
  "matchesPattern filename pattern = regExpTest (starToDotStar (escapeRegExp pattern)) filename"

text \<open>
  The glob as the specification words it: \<^verbatim>\<open>*\<close> matches any run of characters, every
  other character is literal.
\<close>

fun globMatches :: "string \<Rightarrow> string \<Rightarrow> bool" where
  "globMatches [] name = (name = [])"
| "globMatches (c # p) [] = (c = CHR ''*'' \<and> globMatches p [])"
| "globMatches (c # p) (x # xs) =
     (if c = CHR ''*'' then globMatches p (x # xs) \<or> globMatches (c # p) xs
      else c = x \<and> globMatches p xs)"

section \<open>Filesystem helper: cleaning a directory\<close>

text \<open>
  \<^verbatim>\<open>cleanDirectory\<close> looks at one path: nothing is there, something that is not a
  directory is there, or a directory with its entries (name and kind, as
  \<^verbatim>\<open>readdir\<close> with \<^verbatim>\<open>withFileTypes\<close> lists them; \<^verbatim>\<open>isFile()\<close> holds of a regular file
  only). \<^verbatim>\<open>unlink\<close> removes the entry of a name and fails with \<^verbatim>\<open>ENOENT\<close> when there is
  none. Permissions and other processes changing the directory are not modelled.
\<close>

datatype entry_kind = RegularFile | Directory | OtherEntry

type_synonym dirent = "string \<times> entry_kind"

datatype node = Missing | NotADirectory | Dir "dirent list"

datatype fs_error = ENOENT | NotDirectoryError | InvalidRegExp

definition unlink :: "string \<Rightarrow> dirent list \<Rightarrow> fs_error + dirent list" where
  "unlink name entries =
     (if name \<in> fst ` set entries then Inr (filter (\<lambda>e. fst e \<noteq> name) entries)
      else Inl ENOENT)"

text \<open>
  The \<^verbatim>\<open>for\<close> loop over the entries read: \<open>current\<close> is the directory as the loop has
  left it so far. \<^verbatim>\<open>if (pattern)\<close> is false for a missing pattern and for the empty
  string.
\<close>

fun cleanLoop ::
  "string option \<Rightarrow> dirent list \<Rightarrow> dirent list \<Rightarrow> nat \<Rightarrow> (fs_error + nat) \<times> dirent list" where
  "cleanLoop pattern [] current deletedCount = (Inr deletedCount, current)"
| "cleanLoop pattern ((name, kind) # rest) current deletedCount =
     (if kind = RegularFile then
        (case (case pattern of
                 None \<Rightarrow> Some True
               | Some p \<Rightarrow> if p = [] then Some True else matchesPattern name p) of
           None \<Rightarrow> (Inl InvalidRegExp, current)
         | Some False \<Rightarrow> cleanLoop pattern rest current deletedCount
         | Some True \<Rightarrow>
             (case unlink name current of
                Inl e \<Rightarrow> (Inl e, current)
              | Inr current' \<Rightarrow> cleanLoop pattern rest current' (deletedCount + 1)))
      else cleanLoop pattern rest current deletedCount)"

text \<open>
  An error with code \<^verbatim>\<open>ENOENT\<close> is caught and answered with 0; the error for a path
  that is not a directory is thrown inside the \<^verbatim>\<open>try\<close>, has no code, and is rethrown.
\<close>

definition cleanDirectory :: "node \<Rightarrow> string option \<Rightarrow> (fs_error + nat) \<times> node" where
  "cleanDirectory dir pattern =
     (case dir of
        Missing \<Rightarrow> (Inr 0, Missing)
      | NotADirectory \<Rightarrow> (Inl NotDirectoryError, NotADirectory)
      | Dir entries \<Rightarrow>
          (case cleanLoop pattern entries entries 0 of
             (Inl e, current) \<Rightarrow>
               (if e = ENOENT then (Inr 0, Dir current) else (Inl e, Dir current))
           | (Inr deletedCount, current) \<Rightarrow> (Inr deletedCount, Dir current)))"

text \<open>
  \<^verbatim>\<open>BrowserManager.cleanScreenshots(pattern = '*.png')\<close>, on the node at the screenshot
  directory.
\<close>

definition cleanScreenshots :: "string option \<Rightarrow> node \<Rightarrow> (fs_error + nat) \<times> node" where
  "cleanScreenshots pattern dir =
     cleanDirectory dir (Some (case pattern of None \<Rightarrow> ''*.png'' | Some p \<Rightarrow> p))"

text \<open>What the claim counts and keeps: the regular files whose name the glob matches.\<close>

definition globSelects :: "string \<Rightarrow> dirent \<Rightarrow> bool" where
  "globSelects pattern e = (snd e = RegularFile \<and> globMatches pattern (fst e))"

text \<open>The atom a pattern character stands for, once escaped and compiled.\<close>

definition toAtom :: "char \<Rightarrow> atom" where
  "toAtom c = (if c = CHR ''*'' then AnyRun else Literal c)"

text \<open>A file name with a line feed in it: \<^verbatim>\<open>a\<close>, line feed, \<^verbatim>\<open>b.png\<close>.\<close>

definition newlineName :: string where
  "newlineName = [CHR ''a'', CHR 0x0A, CHR ''b''] @ ''.png''"

section \<open>The not-found result\<close>

text \<open>The value \<^verbatim>\<open>{ selector, found: false }\<close> that \<^verbatim>\<open>getElementInfo\<close> returns from its \<^verbatim>\<open>catch\<close>.\<close>

definition notFound :: "string \<Rightarrow> element_info" where
  "notFound selector = \<lparr> ei_selector = selector, ei_found = False, ei_tag = None,
                           ei_text = None, ei_boundingBox = None \<rparr>"

section \<open>Reading a trace\<close>

text \<open>
  Whether a list of calls holds a full-page screenshot written to \<open>target\<close>, and whether
  it holds any screenshot at all.
\<close>

definition screenshotRequested :: "string \<Rightarrow> call list \<Rightarrow> bool" where
  "screenshotRequested target calls =
     list_ex (\<lambda>c. case c of PageScreenshot p path fullPage \<Rightarrow> path = Some target \<and> fullPage
                   | _ \<Rightarrow> False) calls"

definition anyScreenshot :: "call list \<Rightarrow> bool" where
  "anyScreenshot calls =
     list_ex (\<lambda>c. case c of PageScreenshot p path fullPage \<Rightarrow> True | _ \<Rightarrow> False) calls"

section \<open>Concrete environments\<close>

text \<open>
  The documented default configuration, and an environment in which every collaborator
  call succeeds: a new handle is numbered by the calls made so far, the working
  directory is \<^verbatim>\<open>/work\<close>, and the clock stands at 2026-01-27T15:30:10.123Z.
\<close>

definition default_config :: config where
  "default_config =
     \<lparr> cfg_headless = False, cfg_slowMoMs = 0, cfg_defaultTimeoutMs = 30000,
       cfg_screenshotDir = ''./screenshots'' \<rparr>"

definition engine_ok :: env where
  "engine_ok =
     \<lparr> config = default_config,
       now_iso = (\<lambda>t. ''2026-01-27T15:30:10.123Z''),
       void_reply = (\<lambda>t c. Inr ()),
       handle_reply = (\<lambda>t c. Inr (Suc (length t))),
       string_reply = (\<lambda>t c. Inr ''a''),
       url_reply = (\<lambda>t p. ''https://example.com/''),
       box_reply = (\<lambda>t c. Inr None),
       bytes_reply = (\<lambda>t c. Inr []),
       path_join = (\<lambda>d f. (if take 2 d = ''./'' then drop 2 d else d) @ ''/'' @ f),
       path_dirname = (\<lambda>p. ''/work/screenshots''),
       path_isAbsolute = (\<lambda>p. take 1 p = ''/''),
       path_resolve_cwd = (\<lambda>p. ''/work/'' @ p),
       base64 = (\<lambda>b. []) \<rparr>"

text \<open>The same environment, except that creating the browser context fails.\<close>

definition context_fails :: env where
  "context_fails =
     engine_ok\<lparr> handle_reply :=
       (\<lambda>t c. case c of NewContext b \<Rightarrow> Inl ''browser has been closed''
                | _ \<Rightarrow> Inr (Suc (length t))) \<rparr>"

text \<open>The same environment, except that every click times out.\<close>

definition click_fails :: env where
  "click_fails =
     engine_ok\<lparr> void_reply :=
       (\<lambda>t c. case c of Click p sel ms \<Rightarrow> Inl ''Timeout exceeded'' | _ \<Rightarrow> Inr ()) \<rparr>"

text \<open>
  The same environment, except that reading the inner text of an element fails (the
  element has attached and has been removed again).
\<close>

definition text_fails :: env where
  "text_fails =
     engine_ok\<lparr> string_reply :=
       (\<lambda>t c. case c of InnerText p sel \<Rightarrow> Inl ''Timeout exceeded'' | _ \<Rightarrow> Inr ''a'') \<rparr>"

text \<open>The same environment, except that the inner text of an element is 250 characters long.\<close>

definition long_text :: env where
  "long_text =
     engine_ok\<lparr> string_reply :=
       (\<lambda>t c. case c of InnerText p sel \<Rightarrow> Inr (replicate 250 CHR ''x'') | _ \<Rightarrow> Inr ''div'') \<rparr>"

text \<open>A manager with a session: the state a successful \<^verbatim>\<open>launch\<close> leaves, its trace cleared.\<close>

definition launched :: manager where
  "launched = \<lparr> browser = Some 2, bcontext = Some 3, page = Some 4,
                isShuttingDown = False, trace = [] \<rparr>"

lemmas action_defs =
  succeed_def throw_def andThen_def tryCatch_def tryFinally_def modify_def emit_def
  answer_def callVoid_def callHandle_def callString_def callBox_def callBytes_def
  withPage_def field_or_def resolveAbsolute_def

section \<open>The tool catalogue\<close>

text \<open>
  C1 (the response to \<^verbatim>\<open>tools/list\<close> lists exactly the seven documented tool names).
  The code answers every \<^verbatim>\<open>tools/list\<close> request, whatever its id, with four names:
  \<^verbatim>\<open>browser_find\<close>, \<^verbatim>\<open>browser_click\<close> and \<^verbatim>\<open>browser_type\<close> are missing, so the
  listed names are not the documented ones.
\<close>

theorem tools_list_has_four_names:
  "listed_names (handleToolsList i) =
     [''browser_launch'', ''browser_navigate'', ''browser_screenshot'', ''browser_quit'']
   \<and> set (listed_names (handleToolsList i)) \<noteq> set documented_tool_names
   \<and> ''browser_find'' \<notin> set (listed_names (handleToolsList i))
   \<and> ''browser_click'' \<notin> set (listed_names (handleToolsList i))
   \<and> ''browser_type'' \<notin> set (listed_names (handleToolsList i))"
proof -
  have names: "listed_names (handleToolsList i) =
     [''browser_launch'', ''browser_navigate'', ''browser_screenshot'', ''browser_quit'']"
    by (simp add: handleToolsList_def sendResult_def tools_def)
  have "''browser_find'' \<in> set documented_tool_names"
    by (simp add: documented_tool_names_def)
  moreover have nf: "''browser_find'' \<notin> set (listed_names (handleToolsList i))"
    unfolding names by simp
  ultimately have "set (listed_names (handleToolsList i)) \<noteq> set documented_tool_names"
    by blast
  moreover have "''browser_click'' \<notin> set (listed_names (handleToolsList i))"
    unfolding names by simp
  moreover have "''browser_type'' \<notin> set (listed_names (handleToolsList i))"
    unfolding names by simp
  ultimately show ?thesis using names nf by blast
qed

section \<open>Session Manager: what the step runner preserves\<close>

lemma only_trace_refl: "only_trace s s"
  by (simp add: only_trace_def)

lemma only_trace_fields:
  "only_trace s s' \<Longrightarrow>
     browser s' = browser s \<and> bcontext s' = bcontext s \<and> page s' = page s \<and>
     isShuttingDown s' = isShuttingDown s"
  by (cases s, cases s') (simp add: only_trace_def)

lemma screenshot_frame: "screenshot E options s = (r, s') \<Longrightarrow> only_trace s s'"
  by (auto simp: only_trace_def screenshot_def ensureLaunched_def action_defs Let_def
      split: sum.splits option.splits if_splits prod.splits)

lemma captureErrorScreenshot_ok: "fst (captureErrorScreenshot E n s) = Inr ()"
  by (auto simp: captureErrorScreenshot_def tryCatch_def succeed_def andThen_def Let_def
      split: sum.splits prod.splits)

lemma captureErrorScreenshot_frame:
  "captureErrorScreenshot E n s = (r, s') \<Longrightarrow> only_trace s s'"
  by (auto simp: captureErrorScreenshot_def tryCatch_def succeed_def andThen_def Let_def
      only_trace_refl
      split: sum.splits prod.splits if_splits dest: screenshot_frame)

lemma runStep_failure:
  assumes "fn s = (Inl err, s1)"
  shows "fst (runStep E n fn s) = Inl err" and "only_trace s1 (snd (runStep E n fn s))"
proof -
  obtain s2 where c: "captureErrorScreenshot E n s1 = (Inr (), s2)"
    using captureErrorScreenshot_ok[of E n s1] by (cases "captureErrorScreenshot E n s1") auto
  have r: "runStep E n fn s = (Inl err, s2)"
    using assms c by (simp add: runStep_def tryCatch_def andThen_def throw_def)
  show "fst (runStep E n fn s) = Inl err" using r by simp
  show "only_trace s1 (snd (runStep E n fn s))"
    using r captureErrorScreenshot_frame[OF c] by simp
qed

lemma runStep_success: "fn s = (Inr x, s1) \<Longrightarrow> runStep E n fn s = (Inr x, s1)"
  by (simp add: runStep_def tryCatch_def)

lemma launch_engine_ok:
  "launch engine_ok None initial =
     (Inr (), \<lparr> browser = Some 2, bcontext = Some 3, page = Some 4, isShuttingDown = False,
                trace = [EnsureDir ''/work/./screenshots'', ChromiumLaunch False 0,
                         NewContext 2, NewPage 3, SetDefaultTimeout 4 30000] \<rparr>)"
  by (simp add: launch_def launch_body_def runStep_def action_defs initial_def
      engine_ok_def default_config_def)

text \<open>A launch that succeeds started without a browser and leaves all three handles set.\<close>

lemma launch_body_success:
  "launch_body E options s = (Inr u, s') \<Longrightarrow>
     browser s' \<noteq> None \<and> bcontext s' \<noteq> None \<and> page s' \<noteq> None"
  by (auto simp: launch_body_def action_defs Let_def split: if_splits sum.splits prod.splits)

lemma launch_success:
  assumes "launch E options s = (Inr u, s')"
  shows "browser s = None \<and> browser s' \<noteq> None \<and> bcontext s' \<noteq> None \<and> page s' \<noteq> None"
proof (cases "launch_body E options s")
  case (Pair r s1)
  show ?thesis
  proof (cases r)
    case (Inl err)
    with Pair have "fst (launch E options s) = Inl err"
      unfolding launch_def by (intro runStep_failure(1)[where fn = "launch_body E options"]) simp
    with assms show ?thesis by simp
  next
    case (Inr x)
    with Pair have "launch E options s = (Inr x, s1)"
      unfolding launch_def by (intro runStep_success) simp
    with assms Pair Inr have b: "launch_body E options s = (Inr u, s')" by simp
    then have "browser s = None"
      by (auto simp: launch_body_def throw_def split: if_splits)
    with launch_body_success[OF b] show ?thesis by simp
  qed
qed

section \<open>A second launch\<close>

text \<open>
  C3. Whenever the browser handle is set (so in particular after a launch that succeeded,
  with no quit or shutdown since), \<^verbatim>\<open>launch\<close> fails with the already-launched error and
  leaves the browser, context and page handles, and the shutting-down flag, as they were.
\<close>

theorem launch_twice_rejected:
  assumes "browser s \<noteq> None"
  shows "fst (launch E options s) = Inl AlreadyLaunched
     \<and> browser (snd (launch E options s)) = browser s
     \<and> bcontext (snd (launch E options s)) = bcontext s
     \<and> page (snd (launch E options s)) = page s
     \<and> isShuttingDown (snd (launch E options s)) = isShuttingDown s"
proof -
  have b: "launch_body E options s = (Inl AlreadyLaunched, s)"
    using assms by (simp add: launch_body_def throw_def)
  have "fst (launch E options s) = Inl AlreadyLaunched"
    unfolding launch_def
    using b by (rule runStep_failure(1)[where fn = "launch_body E options"])
  moreover have "only_trace s (snd (launch E options s))"
    unfolding launch_def
    using b by (rule runStep_failure(2)[where fn = "launch_body E options"])
  ultimately show ?thesis using only_trace_fields by blast
qed

text \<open>The theorem at the state a successful launch from the initial manager leaves.\<close>

theorem launch_twice_rejected_witness:
  "fst (launch engine_ok None initial) = Inr ()
   \<and> browser (snd (launch engine_ok None initial)) = Some 2
   \<and> fst (launch engine_ok None (snd (launch engine_ok None initial))) = Inl AlreadyLaunched
   \<and> browser (snd (launch engine_ok None (snd (launch engine_ok None initial)))) = Some 2
   \<and> bcontext (snd (launch engine_ok None (snd (launch engine_ok None initial)))) = Some 3
   \<and> page (snd (launch engine_ok None (snd (launch engine_ok None initial)))) = Some 4
   \<and> isShuttingDown (snd (launch engine_ok None (snd (launch engine_ok None initial)))) = False"
  using launch_twice_rejected[of "snd (launch engine_ok None initial)" engine_ok None]
  by (simp add: launch_engine_ok)

section \<open>Operations without a session\<close>

text \<open>
  C4. When the browser handle or the page handle is null (so before any launch and after a
  quit), each of navigate, getTitle, getUrl, waitForSelector, find, click, type,
  getElementInfo, screenshot and quit fails with the not-launched error naming the
  operation, and leaves the manager exactly as it was: no handle changes and no
  collaborator is called.
\<close>

theorem not_launched_rejected:
  assumes "browser s = None \<or> page s = None"
  shows "navigate E url s = (Inl (NotLaunched ''navigate''), s)
     \<and> getTitle E s = (Inl (NotLaunched ''getTitle''), s)
     \<and> getUrl E s = (Inl (NotLaunched ''getUrl''), s)
     \<and> waitForSelector E selector topts s = (Inl (NotLaunched ''waitForSelector''), s)
     \<and> findLocator selector s = (Inl (NotLaunched ''find''), s)
     \<and> click E selector topts s = (Inl (NotLaunched ''click''), s)
     \<and> type_text E selector text tyopts s = (Inl (NotLaunched ''type''), s)
     \<and> getElementInfo E selector topts s = (Inl (NotLaunched ''getElementInfo''), s)
     \<and> screenshot E sopts s = (Inl (NotLaunched ''screenshot''), s)
     \<and> quit E s = (Inl (NotLaunched ''quit''), s)"
proof -
  have e: "\<And>operation. ensureLaunched operation s = (Inl (NotLaunched operation), s)"
    using assms by (auto simp: ensureLaunched_def throw_def)
  show ?thesis
    by (simp add: navigate_def getTitle_def getUrl_def waitForSelector_def findLocator_def
        click_def type_text_def getElementInfo_def screenshot_def quit_def andThen_def e)
qed

theorem not_launched_rejected_witness:
  "(browser initial = None \<or> page initial = None)
   \<and> navigate engine_ok ''https://example.com'' initial = (Inl (NotLaunched ''navigate''), initial)
   \<and> getTitle engine_ok initial = (Inl (NotLaunched ''getTitle''), initial)
   \<and> getUrl engine_ok initial = (Inl (NotLaunched ''getUrl''), initial)
   \<and> waitForSelector engine_ok ''a'' None initial = (Inl (NotLaunched ''waitForSelector''), initial)
   \<and> findLocator ''a'' initial = (Inl (NotLaunched ''find''), initial)
   \<and> click engine_ok ''a'' None initial = (Inl (NotLaunched ''click''), initial)
   \<and> type_text engine_ok ''a'' ''x'' None initial = (Inl (NotLaunched ''type''), initial)
   \<and> getElementInfo engine_ok ''a'' None initial = (Inl (NotLaunched ''getElementInfo''), initial)
   \<and> screenshot engine_ok None initial = (Inl (NotLaunched ''screenshot''), initial)
   \<and> quit engine_ok initial = (Inl (NotLaunched ''quit''), initial)"
proof -
  have h: "browser initial = None \<or> page initial = None"
    by (simp add: initial_def)
  show ?thesis
    using h not_launched_rejected[OF h, of engine_ok "''https://example.com''" "''a''" None
        "''x''" None None]
    by simp
qed

section \<open>Quit and shutdown\<close>

lemma quit_body_clears:
  "browser (snd (quit_body E s)) = None \<and> bcontext (snd (quit_body E s)) = None \<and>
   page (snd (quit_body E s)) = None"
  by (auto simp: quit_body_def closePage_def closeContext_def closeBrowser_def action_defs
      split: option.splits sum.splits prod.splits)

text \<open>A quit that gets past its launched check clears all three handles, also when a close fails.\<close>

lemma quit_clears:
  assumes "browser s \<noteq> None" "page s \<noteq> None"
  shows "browser (snd (quit E s)) = None \<and> bcontext (snd (quit E s)) = None \<and>
         page (snd (quit E s)) = None"
proof -
  have q: "quit E s = runStep E ''quit'' (quit_body E) s"
    using assms by (auto simp: quit_def ensureLaunched_def andThen_def succeed_def)
  show ?thesis
  proof (cases "quit_body E s")
    case (Pair r s1)
    show ?thesis
    proof (cases r)
      case (Inl err)
      with Pair have "only_trace s1 (snd (runStep E ''quit'' (quit_body E) s))"
        by (intro runStep_failure(2)[where fn = "quit_body E"]) simp
      then show ?thesis
        using quit_body_clears[of E s] Pair q only_trace_fields[of s1] by simp
    next
      case (Inr x)
      with Pair have "runStep E ''quit'' (quit_body E) s = (Inr x, s1)"
        by (intro runStep_success) simp
      then show ?thesis using quit_body_clears[of E s] Pair q by simp
    qed
  qed
qed

lemma shutdown_never_throws: "fst (shutdown E s) = Inr ()"
  by (auto simp: shutdown_def tryFinally_def tryCatch_def succeed_def modify_def
      split: prod.splits sum.splits)

lemma shutdown_reentrant: "isShuttingDown s \<Longrightarrow> shutdown E s = (Inr (), s)"
  by (simp add: shutdown_def succeed_def)

lemma shutdown_without_browser: "browser s = None \<Longrightarrow> shutdown E s = (Inr (), s)"
  by (cases s) (simp add: shutdown_def tryFinally_def tryCatch_def succeed_def)

lemma shutdown_clears:
  assumes "browser s \<noteq> None" "page s \<noteq> None" "\<not> isShuttingDown s"
  shows "browser (snd (shutdown E s)) = None \<and> bcontext (snd (shutdown E s)) = None \<and>
         page (snd (shutdown E s)) = None \<and> \<not> isShuttingDown (snd (shutdown E s))"
  using assms quit_clears[of "s\<lparr>isShuttingDown := True\<rparr>" E]
  by (auto simp: shutdown_def tryFinally_def tryCatch_def modify_def emit_def
      split: prod.splits sum.splits)

text \<open>
  With a browser handle but no page handle, the inner \<^verbatim>\<open>quit\<close> throws from its launched
  check, before the code that resets the handles; \<^verbatim>\<open>shutdown\<close> logs the error and
  leaves the handles as they are.
\<close>

lemma shutdown_browser_without_page:
  "shutdown E \<lparr> browser = Some b, bcontext = c, page = None, isShuttingDown = False, trace = t \<rparr>
   = (Inr (), \<lparr> browser = Some b, bcontext = c, page = None, isShuttingDown = False,
                trace = t @ [ConsoleError (NotLaunched ''quit'')] \<rparr>)"
  by (simp add: shutdown_def quit_def ensureLaunched_def action_defs)

lemma launch_context_fails:
  "launch context_fails None initial =
     (Inl (External ''browser has been closed''),
      \<lparr> browser = Some 2, bcontext = None, page = None, isShuttingDown = False,
        trace = [EnsureDir ''/work/./screenshots'', ChromiumLaunch False 0, NewContext 2] \<rparr>)"
  by (simp add: launch_def launch_body_def runStep_def captureErrorScreenshot_def action_defs
      initial_def context_fails_def engine_ok_def default_config_def)

section \<open>The handles of a session\<close>

text \<open>
  C2 (the page handle is non-null exactly when the browser handle is, in every reachable
  state, failed operations included). \<^verbatim>\<open>launch\<close> stores the browser handle as soon as
  the browser has started; when creating the context then fails, the error leaves
  \<^verbatim>\<open>launch\<close> with the browser handle set and the page handle null. Nothing in
  \<^verbatim>\<open>launch\<close> resets the handles on failure, as the \<^verbatim>\<open>catch\<close> in \<^verbatim>\<open>quit\<close> does.
\<close>

theorem failed_launch_leaves_browser_without_page:
  "fst (launch context_fails None initial) = Inl (External ''browser has been closed'')
   \<and> browser (snd (launch context_fails None initial)) = Some 2
   \<and> page (snd (launch context_fails None initial)) = None
   \<and> (page (snd (launch context_fails None initial)) \<noteq> None) \<noteq>
       (browser (snd (launch context_fails None initial)) \<noteq> None)"
  by (simp add: launch_context_fails)

section \<open>Shutdown after a failed launch\<close>

text \<open>
  C5 (shutdown never throws; it does nothing without a session or when already running;
  an error of the inner quit is swallowed and the handles are cleared all the same). The
  first three parts hold (\<open>shutdown_never_throws\<close>, \<open>shutdown_without_browser\<close>,
  \<open>shutdown_reentrant\<close>), and the handles are cleared when browser and page are both set
  (\<open>shutdown_clears\<close>). In the state a launch leaves when the context cannot be created,
  the inner quit throws the not-launched error, \<^verbatim>\<open>shutdown\<close> swallows and logs it, and
  the browser handle stays set: the handles are not cleared.
\<close>

theorem shutdown_after_failed_launch_keeps_browser:
  "fst (launch context_fails None initial) = Inl (External ''browser has been closed'')
   \<and> fst (shutdown context_fails (snd (launch context_fails None initial))) = Inr ()
   \<and> browser (snd (shutdown context_fails (snd (launch context_fails None initial)))) = Some 2
   \<and> last (trace (snd (shutdown context_fails (snd (launch context_fails None initial)))))
       = ConsoleError (NotLaunched ''quit'')"
  by (simp add: launch_context_fails shutdown_browser_without_page)

section \<open>The quit tool without a session\<close>

text \<open>
  C10. When the browser handle is null (no session was ever launched, or the last one was
  quit), the \<^verbatim>\<open>browser_quit\<close> tool answers with the result text
  \<^verbatim>\<open>Browser session closed\<close>, not with an error, and leaves the manager as it was.
\<close>

theorem quit_tool_without_session:
  assumes "browser s = None"
  shows "toolBrowserQuit E i s = (Result i (ContentText ''Browser session closed''), s)"
  using assms by (simp add: toolBrowserQuit_def shutdown_without_browser sendResult_def)

theorem quit_tool_without_session_witness:
  "browser initial = None
   \<and> toolBrowserQuit engine_ok (IdNum 7) initial
       = (Result (IdNum 7) (ContentText ''Browser session closed''), initial)"
proof -
  have h: "browser initial = None" by (simp add: initial_def)
  show ?thesis using h quit_tool_without_session[OF h, of engine_ok "IdNum 7"] by simp
qed

section \<open>The step runner on failure\<close>

lemma runStep_unfold_failure:
  "fn s = (Inl err, s1) \<Longrightarrow>
   runStep E n fn s = (case captureErrorScreenshot E n s1 of
                         (Inl e, s2) \<Rightarrow> (Inl e, s2) | (Inr u, s2) \<Rightarrow> (Inl err, s2))"
  by (simp add: runStep_def tryCatch_def andThen_def throw_def split: prod.splits sum.splits)

lemma capture_without_page:
  "page s1 = None \<Longrightarrow> captureErrorScreenshot E n s1 = (Inr (), s1)"
  by (simp add: captureErrorScreenshot_def tryCatch_def succeed_def)

lemma capture_with_page:
  assumes "browser s1 \<noteq> None" "page s1 = Some p"
    and "path_join E (cfg_screenshotDir (config E))
           (buildErrorScreenshotName (now_iso E (trace s1)) n) \<noteq> []"
  shows "trace (snd (captureErrorScreenshot E n s1)) =
     (let target = resolveAbsolute E (path_join E (cfg_screenshotDir (config E))
                      (buildErrorScreenshotName (now_iso E (trace s1)) n));
          dir = EnsureDir (path_dirname E target)
      in trace s1 @ dir #
           (case void_reply E (trace s1) dir of
              Inl m \<Rightarrow> []
            | Inr u \<Rightarrow> [PageScreenshot p (Some target) True]))"
  using assms
  by (auto simp: captureErrorScreenshot_def screenshot_def ensureLaunched_def action_defs Let_def
      split: sum.splits prod.splits)

text \<open>
  For an ISO string of the form \<^verbatim>\<open>YYYY-MM-DDTHH:MM:SS.mmmZ\<close>, the timestamp is
  \<^verbatim>\<open>YYYYMMDDTHHMMSSZ\<close>: no dashes, no colons, no milliseconds.
\<close>

lemma removeMillis_skip:
  "CHR ''.'' \<notin> set xs \<Longrightarrow> removeMillis (xs @ ys) = xs @ removeMillis ys"
  by (induction xs) auto

lemma removeMillis_here:
  "length ms = 3 \<Longrightarrow> list_all isDigit ms \<Longrightarrow> removeMillis (CHR ''.'' # ms @ rest) = rest"
  by simp

lemma digits_kept:
  "list_all isDigit ds \<Longrightarrow> filter (\<lambda>c. c \<noteq> CHR ''-'' \<and> c \<noteq> CHR '':'') ds = ds"
  by (induction ds) (auto simp: isDigit_def)

lemma digits_no_dot: "list_all isDigit ds \<Longrightarrow> CHR ''.'' \<notin> set ds"
  by (induction ds) (auto simp: isDigit_def)

lemma timestamp_of_iso:
  assumes "list_all isDigit y" "list_all isDigit mo" "list_all isDigit d" "list_all isDigit h"
    "list_all isDigit mi" "list_all isDigit se" "list_all isDigit ms" "length ms = 3"
  shows "removeMillis (removeDashesColons
           (y @ ''-'' @ mo @ ''-'' @ d @ ''T'' @ h @ '':'' @ mi @ '':'' @ se @ ''.'' @ ms @ ''Z''))
         = y @ mo @ d @ ''T'' @ h @ mi @ se @ ''Z''"
proof -
  have f: "removeDashesColons
           (y @ ''-'' @ mo @ ''-'' @ d @ ''T'' @ h @ '':'' @ mi @ '':'' @ se @ ''.'' @ ms @ ''Z'')
         = (y @ mo @ d @ ''T'' @ h @ mi @ se) @ CHR ''.'' # ms @ ''Z''"
    using assms(1-7)
    by (simp add: removeDashesColons_def digits_kept)
  have nd: "CHR ''.'' \<notin> set (y @ mo @ d @ ''T'' @ h @ mi @ se)"
    using assms(1-6) by (simp add: digits_no_dot)
  show ?thesis
    unfolding f removeMillis_skip[OF nd] removeMillis_here[OF assms(8) assms(7)] by simp
qed

text \<open>The sanitised step name holds letters, digits and underscores only.\<close>

lemma sanitized_chars:
  "\<forall>c \<in> set (replaceNonAlnumRuns s). isAlnum c \<or> c = CHR ''_''"
  by (induction s rule: replaceNonAlnumRuns.induct) auto

lemma name_click:
  "buildErrorScreenshotName ''2026-01-27T15:30:10.123Z'' (''click '' @ [dquote] @ ''a'' @ [dquote])
     = ''error-20260127T153010Z-click_a.png''"
  by code_simp

lemma name_click_spec:
  "specErrorScreenshotName ''2026-01-27T15:30:10.123Z'' (''click '' @ [dquote] @ ''a'' @ [dquote])
     = ''error-20260127T153010Z-click_a_.png''"
  by code_simp

lemma click_fails_run:
  "click click_fails ''a'' None launched =
    (Inl (ClickFailed ''a'' 30000 (External ''Timeout exceeded'')),
     launched\<lparr>trace := [Click 4 ''a'' 30000, EnsureDir ''/work/screenshots'',
        PageScreenshot 4 (Some ''/work/screenshots/error-20260127T153010Z-click_a.png'') True]\<rparr>)"
  by (simp add: click_def runStep_def captureErrorScreenshot_def screenshot_def ensureLaunched_def
      action_defs launched_def click_fails_def engine_ok_def default_config_def
      name_click[simplified])

text \<open>
  C6 as stated fails twice. A click on \<^verbatim>\<open>a\<close> that times out runs the step
  \<^verbatim>\<open>click "a"\<close>; the name the claim gives ends in \<^verbatim>\<open>click_a_.png\<close>, and no screenshot
  of that name is requested (the code strips the underscores at both ends and writes
  \<^verbatim>\<open>click_a.png\<close>). And a launch that fails before there is a page requests no
  screenshot at all.
\<close>

theorem runStep_screenshot_counterexample:
  "fst (click click_fails ''a'' None launched)
     = Inl (ClickFailed ''a'' 30000 (External ''Timeout exceeded''))
   \<and> specErrorScreenshotName (now_iso click_fails []) (''click '' @ [dquote] @ ''a'' @ [dquote])
       = ''error-20260127T153010Z-click_a_.png''
   \<and> \<not> screenshotRequested
         (resolveAbsolute click_fails
            (path_join click_fails (cfg_screenshotDir (config click_fails))
               (specErrorScreenshotName (now_iso click_fails [])
                  (''click '' @ [dquote] @ ''a'' @ [dquote]))))
         (trace (snd (click click_fails ''a'' None launched)))
   \<and> fst (launch context_fails None initial) = Inl (External ''browser has been closed'')
   \<and> \<not> anyScreenshot (trace (snd (launch context_fails None initial)))"
proof -
  have now: "now_iso click_fails [] = ''2026-01-27T15:30:10.123Z''"
    by (simp add: click_fails_def engine_ok_def)
  have target: "resolveAbsolute click_fails
            (path_join click_fails (cfg_screenshotDir (config click_fails))
               ''error-20260127T153010Z-click_a_.png'')
          = ''/work/screenshots/error-20260127T153010Z-click_a_.png''"
    by (simp add: click_fails_def engine_ok_def default_config_def resolveAbsolute_def)
  show ?thesis
    unfolding now name_click_spec target click_fails_run launch_context_fails
    by (simp add: screenshotRequested_def anyScreenshot_def)
qed

text \<open>
  C6, amended. Let a step fail with \<open>err\<close>, leaving the manager in \<open>s1\<close>. Then
  \<^verbatim>\<open>runStep\<close> throws \<open>err\<close> itself, whatever the screenshot attempt does, and changes
  no handle. When the page handle is null it calls nothing. When browser and page are set
  (and \<^verbatim>\<open>path.join\<close> gives a non-empty path, as Node's always does), it ensures the
  directory of the target and, if that succeeds, requests one full-page screenshot of the
  page at \<^verbatim>\<open>resolveAbsolute(join(screenshotDir, name))\<close>, where \<open>name\<close> is \<^verbatim>\<open>error-\<close>, the
  ISO timestamp without dashes, colons and milliseconds, \<^verbatim>\<open>-\<close>, the step name with its
  non-alphanumeric runs replaced by underscores and the underscores at its ends removed,
  and \<^verbatim>\<open>.png\<close>; nothing else is called, whether the screenshot succeeds or not.
\<close>

theorem runStep_failure_screenshot:
  assumes "fn s = (Inl err, s1)"
  shows "fst (runStep E stepName fn s) = Inl err
     \<and> only_trace s1 (snd (runStep E stepName fn s))
     \<and> (page s1 = None \<longrightarrow> snd (runStep E stepName fn s) = s1)
     \<and> (let name = ''error-'' @ removeMillis (removeDashesColons (now_iso E (trace s1))) @ ''-'' @
                     trimUnderscores (replaceNonAlnumRuns stepName) @ ''.png'';
             joined = path_join E (cfg_screenshotDir (config E)) name;
             target = resolveAbsolute E joined;
             dir = EnsureDir (path_dirname E target)
         in browser s1 \<noteq> None \<and> page s1 = Some p \<and> joined \<noteq> [] \<longrightarrow>
            trace (snd (runStep E stepName fn s)) =
              trace s1 @ dir #
                (case void_reply E (trace s1) dir of
                   Inl m \<Rightarrow> []
                 | Inr u \<Rightarrow> [PageScreenshot p (Some target) True]))"
proof -
  have ok: "fst (captureErrorScreenshot E stepName s1) = Inr ()"
    by (rule captureErrorScreenshot_ok)
  have r: "runStep E stepName fn s = (Inl err, snd (captureErrorScreenshot E stepName s1))"
    using assms runStep_unfold_failure[of fn s err s1 E stepName] ok
    by (cases "captureErrorScreenshot E stepName s1") auto
  have 1: "fst (runStep E stepName fn s) = Inl err" using r by simp
  have 2: "only_trace s1 (snd (runStep E stepName fn s))"
    using assms by (rule runStep_failure(2)[where fn = fn])
  have 3: "page s1 = None \<longrightarrow> snd (runStep E stepName fn s) = s1"
    using r by (simp add: capture_without_page)
  have 4: "(let name = ''error-'' @ removeMillis (removeDashesColons (now_iso E (trace s1))) @ ''-'' @
                     trimUnderscores (replaceNonAlnumRuns stepName) @ ''.png'';
             joined = path_join E (cfg_screenshotDir (config E)) name;
             target = resolveAbsolute E joined;
             dir = EnsureDir (path_dirname E target)
         in browser s1 \<noteq> None \<and> page s1 = Some p \<and> joined \<noteq> [] \<longrightarrow>
            trace (snd (runStep E stepName fn s)) =
              trace s1 @ dir #
                (case void_reply E (trace s1) dir of
                   Inl m \<Rightarrow> []
                 | Inr u \<Rightarrow> [PageScreenshot p (Some target) True]))"
    using capture_with_page[of s1 p E stepName]
    unfolding r buildErrorScreenshotName_def Let_def by simp
  from 1 2 3 4 show ?thesis by blast
qed

theorem runStep_failure_screenshot_witness:
  "fst (runStep engine_ok ''click a'' (throw (External ''boom'') :: unit action) launched)
     = Inl (External ''boom'')
   \<and> trace (snd (runStep engine_ok ''click a'' (throw (External ''boom'') :: unit action) launched))
     = [EnsureDir ''/work/screenshots'',
        PageScreenshot 4 (Some ''/work/screenshots/error-20260127T153010Z-click_a.png'') True]"
proof -
  have n: "removeMillis (removeDashesColons ''2026-01-27T15:30:10.123Z'') = ''20260127T153010Z''"
          "trimUnderscores (replaceNonAlnumRuns ''click a'') = ''click_a''"
    by code_simp+
  have e: "now_iso engine_ok [] = ''2026-01-27T15:30:10.123Z''"
    by (simp add: engine_ok_def)
  have s: "page launched = Some 4" "browser launched \<noteq> None" "trace launched = []"
    by (simp_all add: launched_def)
  have j: "path_join engine_ok (cfg_screenshotDir (config engine_ok))
             ''error-20260127T153010Z-click_a.png''
           = ''screenshots/error-20260127T153010Z-click_a.png''"
    by (simp add: engine_ok_def default_config_def)
  have t: "resolveAbsolute engine_ok ''screenshots/error-20260127T153010Z-click_a.png''
           = ''/work/screenshots/error-20260127T153010Z-click_a.png''"
    by (simp add: engine_ok_def resolveAbsolute_def)
  have d: "\<And>x. path_dirname engine_ok x = ''/work/screenshots''"
    by (simp add: engine_ok_def)
  have v: "\<And>t c. void_reply engine_ok t c = Inr ()"
    by (simp add: engine_ok_def)
  have h: "(throw (External ''boom'') :: unit action) launched = (Inl (External ''boom''), launched)"
    by (simp add: throw_def)
  note T = runStep_failure_screenshot[of "throw (External ''boom'') :: unit action" launched
      "External ''boom''" launched engine_ok "''click a''" 4, OF h, unfolded Let_def s e n]
  show ?thesis
    using T s(2) by (simp add: j[simplified] t[simplified] d v)
qed

section \<open>Inspecting an element\<close>

text \<open>
  C7 as stated fails where the element attaches and a later read fails: in the
  environment \<open>text_fails\<close> the wait for \<^verbatim>\<open>attached\<close> succeeds, reading the inner text
  fails, and the result is \<^verbatim>\<open>{found: false}\<close>, not \<^verbatim>\<open>{found: true, ...}\<close>.
\<close>

theorem getElementInfo_attached_counterexample:
  "void_reply text_fails (trace launched) (WaitFor 4 ''a'' Attached 30000) = Inr ()
   \<and> fst (getElementInfo text_fails ''a'' None launched) = Inr (notFound ''a'')
   \<and> \<not> ei_found (notFound ''a'')"
  by (simp add: getElementInfo_def ensureLaunched_def runStep_def action_defs notFound_def
      launched_def text_fails_def engine_ok_def default_config_def)

text \<open>
  C7, amended. On a launched session \<^verbatim>\<open>getElementInfo\<close> never throws. Its result is
  \<^verbatim>\<open>{found: true, tag, text, boundingBox?}\<close> exactly when the wait for \<^verbatim>\<open>attached\<close> and
  the three reads (tag name, inner text, bounding box) all succeed, the text cut to its
  first 200 characters followed by \<^verbatim>\<open>...\<close> when it is longer than 200 (so never longer
  than 203); in every other case (the wait times out, or a read fails) the result is
  \<^verbatim>\<open>{found: false}\<close>, a normal result. The calls are made in this order, each answered
  after the ones before it.
\<close>

theorem getElementInfo_result:
  assumes "browser s \<noteq> None" and "page s = Some p"
  shows "fst (getElementInfo E selector options s) =
     Inr (let timeout = field_or options to_timeoutMs (cfg_defaultTimeoutMs (config E));
              w = WaitFor p selector Attached timeout;
              g = TagName p selector;
              i = InnerText p selector;
              b = BoundingBox p selector
          in case void_reply E (trace s) w of
               Inl m \<Rightarrow> notFound selector
             | Inr u \<Rightarrow>
                (case string_reply E (trace s @ [w]) g of
                   Inl m \<Rightarrow> notFound selector
                 | Inr tag \<Rightarrow>
                    (case string_reply E (trace s @ [w, g]) i of
                       Inl m \<Rightarrow> notFound selector
                     | Inr text \<Rightarrow>
                        (case box_reply E (trace s @ [w, g, i]) b of
                           Inl m \<Rightarrow> notFound selector
                         | Inr boundingBox \<Rightarrow>
                             \<lparr> ei_selector = selector, ei_found = True, ei_tag = Some tag,
                               ei_text = Some (if 200 < length text then take 200 text @ ''...''
                                               else text),
                               ei_boundingBox = boundingBox \<rparr>))))
   \<and> (\<forall>info text. fst (getElementInfo E selector options s) = Inr info \<and>
          ei_text info = Some text \<longrightarrow> length text \<le> 203)"
proof -
  have main: "fst (getElementInfo E selector options s) =
     Inr (let timeout = field_or options to_timeoutMs (cfg_defaultTimeoutMs (config E));
              w = WaitFor p selector Attached timeout;
              g = TagName p selector;
              i = InnerText p selector;
              b = BoundingBox p selector
          in case void_reply E (trace s) w of
               Inl m \<Rightarrow> notFound selector
             | Inr u \<Rightarrow>
                (case string_reply E (trace s @ [w]) g of
                   Inl m \<Rightarrow> notFound selector
                 | Inr tag \<Rightarrow>
                    (case string_reply E (trace s @ [w, g]) i of
                       Inl m \<Rightarrow> notFound selector
                     | Inr text \<Rightarrow>
                        (case box_reply E (trace s @ [w, g, i]) b of
                           Inl m \<Rightarrow> notFound selector
                         | Inr boundingBox \<Rightarrow>
                             \<lparr> ei_selector = selector, ei_found = True, ei_tag = Some tag,
                               ei_text = Some (if 200 < length text then take 200 text @ ''...''
                                               else text),
                               ei_boundingBox = boundingBox \<rparr>))))"
    using assms
    by (auto simp: getElementInfo_def ensureLaunched_def runStep_def action_defs Let_def
        truncateText_def notFound_def
        split: sum.splits prod.splits)
  have bound: "\<forall>info text. fst (getElementInfo E selector options s) = Inr info \<and>
          ei_text info = Some text \<longrightarrow> length text \<le> 203"
    unfolding main by (auto simp: Let_def notFound_def split: sum.splits)
  from main bound show ?thesis by blast
qed

text \<open>The theorem where the element is found and its text is 250 characters long.\<close>

theorem getElementInfo_result_witness:
  "browser launched \<noteq> None \<and> page launched = Some 4
   \<and> fst (getElementInfo long_text ''a'' None launched) =
       Inr \<lparr> ei_selector = ''a'', ei_found = True, ei_tag = Some ''div'',
             ei_text = Some (replicate 200 CHR ''x'' @ ''...''), ei_boundingBox = None \<rparr>"
proof -
  have h: "browser launched \<noteq> None" "page launched = Some 4"
    by (simp_all add: launched_def)
  have r: "\<And>t. void_reply long_text t (WaitFor 4 ''a'' Attached 30000) = Inr ()"
    "\<And>t. string_reply long_text t (TagName 4 ''a'') = Inr ''div''"
    "\<And>t. string_reply long_text t (InnerText 4 ''a'') = Inr (replicate 250 CHR ''x'')"
    "\<And>t. box_reply long_text t (BoundingBox 4 ''a'') = Inr None"
    "field_or None to_timeoutMs (cfg_defaultTimeoutMs (config long_text)) = 30000"
    by (simp_all add: long_text_def engine_ok_def default_config_def field_or_def)
  show ?thesis
    using h getElementInfo_result[OF h, of long_text "''a''" None]
    by (simp add: r Let_def)
qed

section \<open>Shutdown Coordinator: exit codes\<close>

lemma trigger_while_shutting_down:
  "hooksShuttingDown h \<Longrightarrow>
     react h (Trigger t) = h\<lparr> processExitCode := processExitCode (react h (Trigger t)) \<rparr>"
  by (cases t) (simp_all add: react_def performShutdown_def)

lemma triggers_while_shutting_down:
  "hooksShuttingDown h \<Longrightarrow>
     run h (map Trigger ts) = h\<lparr> processExitCode := processExitCode (run h (map Trigger ts)) \<rparr>"
proof (induction ts arbitrary: h)
  case Nil
  then show ?case by (simp add: run_def)
next
  case (Cons t ts)
  let ?h1 = "react h (Trigger t)"
  have 1: "?h1 = h\<lparr> processExitCode := processExitCode ?h1 \<rparr>"
    by (rule trigger_while_shutting_down[OF Cons.prems])
  then have "hooksShuttingDown ?h1"
    using Cons.prems by (metis hooks.select_convs(1) hooks.surjective hooks.update_convs(4))
  from Cons.IH[OF this] have 2: "run ?h1 (map Trigger ts) =
      ?h1\<lparr> processExitCode := processExitCode (run ?h1 (map Trigger ts)) \<rparr>" .
  have r: "run h (map Trigger (t # ts)) = run ?h1 (map Trigger ts)"
    by (simp add: run_def)
  show ?case unfolding r
    by (subst 2, subst 1) simp
qed

lemma first_trigger:
  "\<not> hooksShuttingDown h \<Longrightarrow> exited h = None \<Longrightarrow>
     hooksShuttingDown (react h (Trigger t)) \<and>
     shutdownTimeout (react h (Trigger t)) = Some (exitCodeFor t) \<and>
     awaitingCleanup (react h (Trigger t)) = Some (exitCodeFor t) \<and>
     exited (react h (Trigger t)) = None"
  by (cases t) (simp_all add: react_def performShutdown_def ExitCode_SIGINT_def ExitCode_SUCCESS_def ExitCode_ERROR_def)

lemma after_triggers:
  assumes "\<not> hooksShuttingDown h" and "exited h = None"
  shows "awaitingCleanup (run h (Trigger t # map Trigger later)) = Some (exitCodeFor t)"
    and "shutdownTimeout (run h (Trigger t # map Trigger later)) = Some (exitCodeFor t)"
    and "exited (run h (Trigger t # map Trigger later)) = None"
proof -
  let ?h1 = "react h (Trigger t)"
  note a = first_trigger[OF assms, of t]
  have r: "run h (Trigger t # map Trigger later) = run ?h1 (map Trigger later)"
    by (simp add: run_def)
  have e: "run ?h1 (map Trigger later) =
      ?h1\<lparr> processExitCode := processExitCode (run ?h1 (map Trigger later)) \<rparr>"
    using a by (intro triggers_while_shutting_down) simp
  show "awaitingCleanup (run h (Trigger t # map Trigger later)) = Some (exitCodeFor t)"
    unfolding r by (subst e) (simp add: a)
  show "shutdownTimeout (run h (Trigger t # map Trigger later)) = Some (exitCodeFor t)"
    unfolding r by (subst e) (simp add: a)
  show "exited (run h (Trigger t # map Trigger later)) = None"
    unfolding r by (subst e) (simp add: a)
qed

lemma run_snoc: "run h (es @ [e]) = react (run h es) e"
  by (simp add: run_def)

text \<open>When the cleanup hangs, the timer exits with the code of the trigger.\<close>

lemma forced_exit_code:
  assumes "\<not> hooksShuttingDown h" and "exited h = None"
  shows "exited (run h (Trigger t # map Trigger later @ [TimerFired])) = Some (exitCodeFor t)"
proof -
  note b = after_triggers[OF assms, of t later]
  have "run h (Trigger t # map Trigger later @ [TimerFired])
          = react (run h (Trigger t # map Trigger later)) TimerFired"
    using run_snoc[of h "Trigger t # map Trigger later"] by simp
  then show ?thesis using b by (simp add: react_def timerFired_def)
qed

text \<open>
  C9. A trigger that arrives while a shutdown is in progress changes nothing but the
  \<^verbatim>\<open>process.exitCode\<close> field, which no exit of the coordinator reads (every
  \<^verbatim>\<open>process.exit\<close> is given its code). Otherwise the trigger starts the shutdown, and
  whatever triggers arrive before the cleanup settles, the process exits with the code of
  the table (130 for the interrupt signal, 0 for the termination signal, 1 for an uncaught
  exception or an unhandled rejection) when the cleanup resolves, and with 1 when it
  rejects. When the cleanup does neither and the force-exit timer fires first, the
  process exits through the timer, again with the code of the table.
\<close>

theorem shutdown_exit_codes:
  "(hooksShuttingDown g \<longrightarrow>
      react g (Trigger t) = g\<lparr> processExitCode := processExitCode (react g (Trigger t)) \<rparr>)
   \<and> (\<not> hooksShuttingDown h \<and> exited h = None \<longrightarrow>
        exited (run h (Trigger t # map Trigger later)) = None
      \<and> exited (run h (Trigger t # map Trigger later @ [CleanupSettled Resolved]))
          = Some (exitCodeFor t)
      \<and> exited (run h (Trigger t # map Trigger later @ [CleanupSettled (Rejected m)]))
          = Some 1
      \<and> exited (run h (Trigger t # map Trigger later @ [TimerFired]))
          = Some (exitCodeFor t))"
proof -
  have A: "hooksShuttingDown g \<longrightarrow>
      react g (Trigger t) = g\<lparr> processExitCode := processExitCode (react g (Trigger t)) \<rparr>"
    using trigger_while_shutting_down by blast
  have B: "exited (run h (Trigger t # map Trigger later)) = None
      \<and> exited (run h (Trigger t # map Trigger later @ [CleanupSettled Resolved]))
          = Some (exitCodeFor t)
      \<and> exited (run h (Trigger t # map Trigger later @ [CleanupSettled (Rejected m)]))
          = Some 1
      \<and> exited (run h (Trigger t # map Trigger later @ [TimerFired]))
          = Some (exitCodeFor t)" if h: "\<not> hooksShuttingDown h" "exited h = None"
  proof -
    note b = after_triggers[OF h, of t later]
    have s: "\<And>e. run h (Trigger t # map Trigger later @ [e])
               = react (run h (Trigger t # map Trigger later)) e"
      using run_snoc[of h "Trigger t # map Trigger later"] by simp
    have settled: "exited (run h (Trigger t # map Trigger later @ [CleanupSettled Resolved]))
          = Some (exitCodeFor t)
      \<and> exited (run h (Trigger t # map Trigger later @ [CleanupSettled (Rejected m)]))
          = Some 1"
      unfolding s using b by (simp add: react_def cleanupSettled_def ExitCode_ERROR_def)
    have timer: "exited (run h (Trigger t # map Trigger later @ [TimerFired]))
          = Some (exitCodeFor t)"
      using h by (rule forced_exit_code)
    from b(3) settled timer show ?thesis by blast
  qed
  from A B show ?thesis by blast
qed

text \<open>
  The theorem for a termination signal and for an interrupt signal, each followed by two
  more triggers: the cleanup resolves, rejects, or hangs until the timer fires.
\<close>

theorem shutdown_exit_codes_witness:
  "hooksShuttingDown (react running (Trigger SIGINT))
   \<and> react (react running (Trigger SIGINT)) (Trigger SIGTERM) = react running (Trigger SIGINT)
   \<and> \<not> hooksShuttingDown running \<and> exited running = None
   \<and> exited (run running [Trigger SIGTERM, Trigger SIGINT, Trigger UncaughtException,
                           CleanupSettled Resolved]) = Some 0
   \<and> exited (run running [Trigger SIGTERM, Trigger SIGINT, Trigger UncaughtException,
                           CleanupSettled (Rejected ''close failed'')]) = Some 1
   \<and> exited (run running [Trigger SIGTERM, Trigger SIGINT, Trigger UncaughtException,
                           TimerFired]) = Some 0
   \<and> exited (run running [Trigger SIGINT, Trigger SIGTERM, Trigger UnhandledRejection])
       = None
   \<and> exited (run running [Trigger SIGINT, Trigger SIGTERM, Trigger UnhandledRejection,
                           CleanupSettled Resolved]) = Some 130
   \<and> exited (run running [Trigger SIGINT, Trigger SIGTERM, Trigger UnhandledRejection,
                           TimerFired]) = Some 130
   \<and> exited (run running [Trigger UncaughtException, TimerFired]) = Some 1"
proof -
  have g: "hooksShuttingDown (react running (Trigger SIGINT))"
    by (simp add: react_def running_def performShutdown_def)
  have p: "processExitCode (react (react running (Trigger SIGINT)) (Trigger SIGTERM))
             = processExitCode (react running (Trigger SIGINT))"
    by (simp add: react_def running_def performShutdown_def)
  have h: "\<not> hooksShuttingDown running" "exited running = None"
    by (simp_all add: running_def)
  show ?thesis
    using g h
      shutdown_exit_codes[of "react running (Trigger SIGINT)" SIGTERM running
        "[SIGINT, UncaughtException]" "''close failed''"]
      shutdown_exit_codes[of "react running (Trigger SIGINT)" SIGINT running
        "[SIGTERM, UnhandledRejection]" "''close failed''"]
      shutdown_exit_codes[of "react running (Trigger SIGINT)" UncaughtException running
        "[]" "''close failed''"]
    by (simp add: p)
qed

section \<open>Cleaning the screenshot directory\<close>

text \<open>
  The regular expression built from a pattern always parses, to one atom per pattern
  character; on a name without line terminators it matches exactly when the glob does.
\<close>

lemma parse_generated:
  "parseRegExp (starToDotStar (escapeRegExp p)) = Some (map toAtom p)"
proof (induction p)
  case Nil
  then show ?case by (simp add: starToDotStar_def escapeRegExp_def)
next
  case (Cons c p)
  have IH: "parseRegExp (concat (map (\<lambda>c. if c = CHR ''*'' then ''.*'' else [c])
              (concat (map (\<lambda>c. if c \<in> set regexSpecials then [backslash, c] else [c]) p))))
            = Some (map toAtom p)"
    using Cons.IH by (simp add: starToDotStar_def escapeRegExp_def)
  show ?case
  proof (cases "c \<in> set regexSpecials")
    case True
    then have "c \<noteq> CHR ''*''" by (auto simp: regexSpecials_def backslash_def)
    with True show ?thesis
      using IH by (simp add: starToDotStar_def escapeRegExp_def toAtom_def backslash_def)
  next
    case False
    then have nb: "c \<noteq> backslash" "c \<noteq> CHR ''.''" by (auto simp: regexSpecials_def)
    show ?thesis
    proof (cases "c = CHR ''*''")
      case True
      then show ?thesis
        using IH by (simp add: starToDotStar_def escapeRegExp_def toAtom_def backslash_def regexSpecials_def)
    next
      case star: False
      then show ?thesis
        using IH False nb by (simp add: starToDotStar_def escapeRegExp_def toAtom_def)
    qed
  qed
qed

lemma matchAtoms_glob:
  "\<forall>x \<in> set name. \<not> isLineTerminator x \<Longrightarrow> matchAtoms (map toAtom p) name = globMatches p name"
  by (induction p name rule: globMatches.induct) (auto simp: toAtom_def)

lemma matchesPattern_glob:
  "\<forall>x \<in> set name. \<not> isLineTerminator x \<Longrightarrow> matchesPattern name p = Some (globMatches p name)"
  by (simp add: matchesPattern_def regExpTest_def parse_generated matchAtoms_glob)


lemma cleanLoop_selects:
  assumes "\<And>name. (name, RegularFile) \<in> set todo \<Longrightarrow>
             (case pattern of None \<Rightarrow> Some True
              | Some p \<Rightarrow> if p = [] then Some True else matchesPattern name p)
             = Some (sel (name, RegularFile))"
    and "\<And>e. sel e \<Longrightarrow> snd e = RegularFile"
    and "distinct (map fst todo)"
    and "fst ` set todo \<subseteq> fst ` set current"
  shows "cleanLoop pattern todo current n =
     (Inr (n + length (filter sel todo)),
      filter (\<lambda>e. fst e \<notin> fst ` set (filter sel todo)) current)"
  using assms
proof (induction todo arbitrary: current n)
  case Nil
  then show ?case by simp
next
  case (Cons e todo)
  obtain name kind where e: "e = (name, kind)" by (cases e)
  have names: "fst ` set todo \<subseteq> fst ` set current"
    using Cons.prems(4) by auto
  have d: "distinct (map fst todo)" "name \<notin> fst ` set todo"
    using Cons.prems(3) e by auto
  have m: "\<And>name. (name, RegularFile) \<in> set todo \<Longrightarrow>
             (case pattern of None \<Rightarrow> Some True
              | Some p \<Rightarrow> if p = [] then Some True else matchesPattern name p)
             = Some (sel (name, RegularFile))"
    using Cons.prems(1) by simp
  show ?case
  proof (cases "sel e")
    case False
    have "cleanLoop pattern (e # todo) current n = cleanLoop pattern todo current n"
    proof (cases "kind = RegularFile")
      case True
      with Cons.prems(1)[of name] e False show ?thesis by simp
    next
      case False
      then show ?thesis using e by simp
    qed
    also have "\<dots> = (Inr (n + length (filter sel todo)),
        filter (\<lambda>e. fst e \<notin> fst ` set (filter sel todo)) current)"
      by (rule Cons.IH[OF m Cons.prems(2) d(1) names])
    finally show ?thesis using False by simp
  next
    case True
    then have k: "kind = RegularFile" using Cons.prems(2)[of e] e by simp
    let ?cur = "filter (\<lambda>e. fst e \<noteq> name) current"
    have u: "unlink name current = Inr ?cur"
      using Cons.prems(4) e by (auto simp: unlink_def)
    have names': "fst ` set todo \<subseteq> fst ` set ?cur"
      using names d(2) by force
    have "cleanLoop pattern (e # todo) current n = cleanLoop pattern todo ?cur (n + 1)"
      using Cons.prems(1)[of name] e k True u by simp
    also have "\<dots> = (Inr (n + 1 + length (filter sel todo)),
        filter (\<lambda>e. fst e \<notin> fst ` set (filter sel todo)) ?cur)"
      by (rule Cons.IH[OF m Cons.prems(2) d(1) names'])
    finally show ?thesis
      using True e by (auto intro: filter_cong)
  qed
qed

lemma filter_selected_names:
  assumes "distinct (map fst entries)"
  shows "filter (\<lambda>e. fst e \<notin> fst ` set (filter sel entries)) entries
         = filter (\<lambda>e. \<not> sel e) entries"
proof (rule filter_cong[OF refl])
  fix e assume e: "e \<in> set entries"
  have inj: "inj_on fst (set entries)" using assms by (simp add: distinct_map)
  show "(fst e \<notin> fst ` set (filter sel entries)) = (\<not> sel e)"
  proof
    assume "fst e \<notin> fst ` set (filter sel entries)"
    then show "\<not> sel e" using e by force
  next
    assume n: "\<not> sel e"
    show "fst e \<notin> fst ` set (filter sel entries)"
    proof
      assume "fst e \<in> fst ` set (filter sel entries)"
      then obtain e' where e': "e' \<in> set entries" "sel e'" "fst e' = fst e" by auto
      with inj e have "e' = e" by (auto dest: inj_onD)
      with e' n show False by simp
    qed
  qed
qed

lemma cleanDirectory_selects:
  assumes "\<And>name. (name, RegularFile) \<in> set entries \<Longrightarrow>
             (case pattern of None \<Rightarrow> Some True
              | Some p \<Rightarrow> if p = [] then Some True else matchesPattern name p)
             = Some (sel (name, RegularFile))"
    and "\<And>e. sel e \<Longrightarrow> snd e = RegularFile"
    and "distinct (map fst entries)"
  shows "cleanDirectory (Dir entries) pattern =
     (Inr (length (filter sel entries)), Dir (filter (\<lambda>e. \<not> sel e) entries))"
proof -
  have L: "cleanLoop pattern entries entries 0 =
     (Inr (0 + length (filter sel entries)),
      filter (\<lambda>e. fst e \<notin> fst ` set (filter sel entries)) entries)"
    by (rule cleanLoop_selects[OF assms(1) assms(2) assms(3)]) simp_all
  have F: "filter (\<lambda>e. fst e \<notin> fst ` set (filter sel entries)) entries
           = filter (\<lambda>e. \<not> sel e) entries"
    by (rule filter_selected_names[OF assms(3)])
  have "cleanDirectory (Dir entries) pattern =
     (Inr (0 + length (filter sel entries)),
      Dir (filter (\<lambda>e. fst e \<notin> fst ` set (filter sel entries)) entries))"
    by (simp only: cleanDirectory_def L node.case prod.case sum.case)
  then show ?thesis by (simp only: F add_0)
qed

text \<open>
  C8 as stated fails twice. With the empty pattern, which as a glob matches no file name,
  \<^verbatim>\<open>cleanDirectory\<close> skips the pattern test (\<^verbatim>\<open>if (pattern)\<close>) and deletes every regular
  file. And a file name with a line feed in it is matched by the glob \<^verbatim>\<open>*.png\<close> but not
  by the regular expression, so the file is kept.
\<close>

theorem cleanScreenshots_counterexample:
  "\<not> globMatches [] ''keep.txt''
   \<and> cleanScreenshots (Some []) (Dir [(''keep.txt'', RegularFile)]) = (Inr 1, Dir [])
   \<and> globMatches ''*.png'' newlineName
   \<and> cleanScreenshots (Some ''*.png'') (Dir [(newlineName, RegularFile)])
       = (Inr 0, Dir [(newlineName, RegularFile)])"
  by (simp add: cleanScreenshots_def cleanDirectory_def unlink_def newlineName_def
      matchesPattern_def regExpTest_def starToDotStar_def escapeRegExp_def regexSpecials_def
      backslash_def isLineTerminator_def)

text \<open>
  C8, amended. In a directory whose entries have distinct names, for a non-empty pattern
  and regular files whose names hold no line terminator, \<^verbatim>\<open>cleanScreenshots\<close> removes
  exactly the regular files whose names the glob matches, keeps every other entry
  (files that do not match, subdirectories, entries of other kinds) in place, and returns
  the number of files removed. With the empty pattern it removes every regular file. On a
  directory that does not exist it returns 0.
\<close>

theorem cleanScreenshots_glob:
  assumes "distinct (map fst entries)"
  shows "(pattern \<noteq> [] \<and>
          (\<forall>e \<in> set entries. snd e = RegularFile \<longrightarrow> (\<forall>x \<in> set (fst e). \<not> isLineTerminator x)) \<longrightarrow>
          cleanScreenshots (Some pattern) (Dir entries) =
            (Inr (length (filter (globSelects pattern) entries)),
             Dir (filter (\<lambda>e. \<not> globSelects pattern e) entries)))
     \<and> cleanScreenshots (Some []) (Dir entries) =
            (Inr (length (filter (\<lambda>e. snd e = RegularFile) entries)),
             Dir (filter (\<lambda>e. snd e \<noteq> RegularFile) entries))
     \<and> cleanScreenshots (Some pattern) Missing = (Inr 0, Missing)"
proof -
  have A: "cleanScreenshots (Some pattern) (Dir entries) =
            (Inr (length (filter (globSelects pattern) entries)),
             Dir (filter (\<lambda>e. \<not> globSelects pattern e) entries))"
    if p: "pattern \<noteq> []"
      and nl: "\<forall>e \<in> set entries. snd e = RegularFile \<longrightarrow> (\<forall>x \<in> set (fst e). \<not> isLineTerminator x)"
  proof -
    have "cleanDirectory (Dir entries) (Some pattern) =
            (Inr (length (filter (globSelects pattern) entries)),
             Dir (filter (\<lambda>e. \<not> globSelects pattern e) entries))"
    proof (rule cleanDirectory_selects[OF _ _ assms])
      fix name assume "(name, RegularFile) \<in> set entries"
      with nl have "\<forall>x \<in> set name. \<not> isLineTerminator x" by force
      then show "(case Some pattern of None \<Rightarrow> Some True
              | Some p \<Rightarrow> if p = [] then Some True else matchesPattern name p)
             = Some (globSelects pattern (name, RegularFile))"
        using p by (simp add: matchesPattern_glob globSelects_def)
    next
      fix e assume "globSelects pattern e"
      then show "snd e = RegularFile" by (simp add: globSelects_def)
    qed
    then show ?thesis by (simp add: cleanScreenshots_def)
  qed
  have B: "cleanScreenshots (Some []) (Dir entries) =
            (Inr (length (filter (\<lambda>e. snd e = RegularFile) entries)),
             Dir (filter (\<lambda>e. snd e \<noteq> RegularFile) entries))"
    using cleanDirectory_selects[of entries "Some []" "\<lambda>e. snd e = RegularFile", OF _ _ assms]
    by (simp add: cleanScreenshots_def)
  have C: "cleanScreenshots (Some pattern) Missing = (Inr 0, Missing)"
    by (simp add: cleanScreenshots_def cleanDirectory_def)
  from A B C show ?thesis by blast
qed

theorem cleanScreenshots_glob_witness:
  "distinct (map fst [(''a.png'', RegularFile), (''b.txt'', RegularFile), (''sub.png'', Directory)])
   \<and> cleanScreenshots (Some ''*.png'')
        (Dir [(''a.png'', RegularFile), (''b.txt'', RegularFile), (''sub.png'', Directory)])
       = (Inr 1, Dir [(''b.txt'', RegularFile), (''sub.png'', Directory)])
   \<and> cleanScreenshots (Some [])
        (Dir [(''a.png'', RegularFile), (''b.txt'', RegularFile), (''sub.png'', Directory)])
       = (Inr 2, Dir [(''sub.png'', Directory)])
   \<and> cleanScreenshots (Some ''*.png'') Missing = (Inr 0, Missing)"
proof -
  have d: "distinct (map fst [(''a.png'', RegularFile), (''b.txt'', RegularFile), (''sub.png'', Directory)])"
    by simp
  show ?thesis
    using d cleanScreenshots_glob[OF d, of "''*.png''"]
    by (simp add: globSelects_def isLineTerminator_def)
qed


end
